theory Spec2Isabelle
  imports Main
begin

section \<open>The library manager of project4.py\<close>

text \<open>
  The development embeds the class \<^verbatim>\<open>LibraryManager\<close> of \<^verbatim>\<open>src/project4.py\<close>
  (with \<^verbatim>\<open>Book\<close> and the menu function \<^verbatim>\<open>staff_add_book_menu\<close>)
  as HOL functions over an explicit state. Conventions:
  \<^item> a Python \<^verbatim>\<open>str\<close> is the list of its code points (\<open>pystr\<close>), whatever the
    script; \<open>lit\<close> gives the code points of a literal of the source;
  \<^item> a Python \<^verbatim>\<open>int\<close> is an \<open>int\<close>;
  \<^item> a \<^verbatim>\<open>dict\<close> is an association list in insertion order, as Python iterates it;
  \<^item> an exception that leaves the function is \<open>Inl\<close> of a sum;
  \<^item> what the environment supplies (\<^verbatim>\<open>date.today()\<close>, \<^verbatim>\<open>uuid.uuid4()\<close>,
    \<^verbatim>\<open>input()\<close>, the content of the data file) is an argument or a field of the state;
  \<^item> \<^verbatim>\<open>str.lower\<close>, a function of the library with the case tables of Unicode behind
    it, is an argument \<open>lower\<close> of the functions that call it.
\<close>

subsection \<open>Dictionaries in insertion order\<close>

type_synonym ('k, 'v) dict = "('k \<times> 'v) list"

text \<open>\<^verbatim>\<open>d.get(k)\<close>: the value stored under \<open>k\<close>, if any.\<close>

fun dict_get :: "('k, 'v) dict \<Rightarrow> 'k \<Rightarrow> 'v option" where
  "dict_get [] k = None"
| "dict_get ((k', v) # d) k = (if k' = k then Some v else dict_get d k)"

text \<open>\<^verbatim>\<open>d[k] = v\<close>: an existing key keeps its position, a new key goes last.\<close>

fun dict_set :: "'k \<Rightarrow> 'v \<Rightarrow> ('k, 'v) dict \<Rightarrow> ('k, 'v) dict" where
  "dict_set k v [] = [(k, v)]"
| "dict_set k v ((k', v') # d) = (if k' = k then (k, v) # d else (k', v') # dict_set k v d)"

text \<open>\<^verbatim>\<open>del d[k]\<close>, used only after \<^verbatim>\<open>k in d\<close> has been tested.\<close>

fun dict_del :: "'k \<Rightarrow> ('k, 'v) dict \<Rightarrow> ('k, 'v) dict" where
  "dict_del k [] = []"
| "dict_del k ((k', v') # d) = (if k' = k then d else (k', v') # dict_del k d)"

definition dict_keys :: "('k, 'v) dict \<Rightarrow> 'k list" where
  "dict_keys d = map fst d"

definition dict_values :: "('k, 'v) dict \<Rightarrow> 'v list" where
  "dict_values d = map snd d"

text \<open>\<^verbatim>\<open>k in d\<close>.\<close>

definition dict_has :: "('k, 'v) dict \<Rightarrow> 'k \<Rightarrow> bool" where
  "dict_has d k = (dict_get d k \<noteq> None)"

subsection \<open>Strings\<close>

type_synonym pystr = "nat list"

text \<open>The code points of a literal, each character standing for the code point of its number.\<close>

definition lit :: "string \<Rightarrow> pystr" where
  "lit cs = map of_char cs"

subsection \<open>Calendar dates\<close>

text \<open>
  \<^verbatim>\<open>datetime.date\<close> as year, month and day of the proleptic Gregorian calendar.
  \<open>plus_days\<close> is \<^verbatim>\<open>date + timedelta(days=n)\<close> for \<open>n \<ge> 0\<close>, \<open>strftime_ymd\<close> is
  \<^verbatim>\<open>strftime("%Y-%m-%d")\<close>, and \<open>fromisoformat\<close> reads the format
  \<^verbatim>\<open>YYYY-MM-DD\<close> back, with \<open>None\<close> where Python raises \<^verbatim>\<open>ValueError\<close>.
  Three things are outside the model: Python's upper bound of year 9999 (an
  \<^verbatim>\<open>OverflowError\<close> of the addition), the year below 1000 in \<^verbatim>\<open>strftime\<close>, which
  the C library may print with fewer than four digits and which is padded here, and the
  other ISO formats that \<^verbatim>\<open>fromisoformat\<close> reads from Python 3.11 on.
\<close>

record date =
  year :: nat
  month :: nat
  day :: nat

definition is_leap :: "nat \<Rightarrow> bool" where
  "is_leap y = (y mod 4 = 0 \<and> (y mod 100 \<noteq> 0 \<or> y mod 400 = 0))"

definition days_in_month :: "nat \<Rightarrow> nat \<Rightarrow> nat" where
  "days_in_month y m =
     (if m = 2 then (if is_leap y then 29 else 28)
      else if m = 4 \<or> m = 6 \<or> m = 9 \<or> m = 11 then 30 else 31)"

definition next_day :: "date \<Rightarrow> date" where
  "next_day d =
     (if day d < days_in_month (year d) (month d) then d\<lparr>day := day d + 1\<rparr>
      else if month d < 12 then d\<lparr>month := month d + 1, day := 1\<rparr>
      else \<lparr>year = year d + 1, month = 1, day = 1\<rparr>)"

primrec plus_days :: "date \<Rightarrow> nat \<Rightarrow> date" where
  "plus_days d 0 = d"
| "plus_days d (Suc n) = plus_days (next_day d) n"

text \<open>\<^verbatim>\<open>d1 < d2\<close> on dates.\<close>

definition date_less :: "date \<Rightarrow> date \<Rightarrow> bool" where
  "date_less a b =
     (year a < year b \<or> (year a = year b \<and>
        (month a < month b \<or> (month a = month b \<and> day a < day b))))"

definition digit_char :: "nat \<Rightarrow> char" where
  "digit_char n = char_of (48 + n)"

fun decimal :: "nat \<Rightarrow> string" where
  "decimal n = (if n < 10 then [digit_char n] else decimal (n div 10) @ [digit_char (n mod 10)])"

definition zero_pad :: "nat \<Rightarrow> string \<Rightarrow> string" where
  "zero_pad w s = replicate (w - length s) (CHR ''0'') @ s"

definition strftime_ymd :: "date \<Rightarrow> pystr" where
  "strftime_ymd d =
     lit (zero_pad 4 (decimal (year d)) @ [CHR ''-''] @ zero_pad 2 (decimal (month d)) @ [CHR ''-'']
            @ zero_pad 2 (decimal (day d)))"

definition digit_val :: "nat \<Rightarrow> nat option" where
  "digit_val c = (if 48 \<le> c \<and> c \<le> 57 then Some (c - 48) else None)"

fun number_val :: "nat \<Rightarrow> pystr \<Rightarrow> nat option" where
  "number_val acc [] = Some acc"
| "number_val acc (c # cs) =
     (case digit_val c of None \<Rightarrow> None | Some v \<Rightarrow> number_val (acc * 10 + v) cs)"

definition fromisoformat :: "pystr \<Rightarrow> date option" where
  "fromisoformat s =
     (if length s = 10 \<and> s ! 4 = of_char (CHR ''-'') \<and> s ! 7 = of_char (CHR ''-'') then
        (case (number_val 0 (take 4 s), number_val 0 (take 2 (drop 5 s)),
               number_val 0 (drop 8 s)) of
           (Some y, Some m, Some d) \<Rightarrow>
             if 1 \<le> y \<and> 1 \<le> m \<and> m \<le> 12 \<and> 1 \<le> d \<and> d \<le> days_in_month y m
             then Some \<lparr>year = y, month = m, day = d\<rparr> else None
         | _ \<Rightarrow> None)
      else None)"

subsection \<open>Books, loan records and JSON documents\<close>

text \<open>The class \<^verbatim>\<open>Book\<close>; the field \<^verbatim>\<open>id\<close> is \<open>id_book\<close> here.\<close>

record book =
  id_book :: pystr
  title :: pystr
  author :: pystr
  copies :: int

text \<open>An entry of \<^verbatim>\<open>borrowed_records\<close>, a dict with three keys in the source.\<close>

record loan =
  user_id :: pystr
  book_id :: pystr
  due_date :: pystr

text \<open>
  The value that \<^verbatim>\<open>json.load\<close> returns and \<^verbatim>\<open>json.dump\<close> takes. Writing a document
  and reading the text back gives the same value for the documents of this type
  (string keys, integers, strings, lists, dicts), so the text itself is not modelled.
\<close>

datatype json =
  JNull | JBool bool | JInt int | JStr pystr | JList "json list" | JDict "(pystr \<times> json) list"

datatype error = AttributeError | KeyError | TypeError | ValueError | EOFError | Ill_typed

text \<open>Sequencing of two steps of which the first may raise.\<close>

fun and_then :: "error + 'a \<Rightarrow> ('a \<Rightarrow> error + 'b) \<Rightarrow> error + 'b" where
  "and_then (Inl e) f = Inl e"
| "and_then (Inr x) f = f x"

text \<open>\<^verbatim>\<open>Book.to_dict\<close>\<close>

definition to_dict :: "book \<Rightarrow> json" where
  "to_dict b =
     JDict [(lit ''id'', JStr (id_book b)), (lit ''title'', JStr (title b)),
            (lit ''author'', JStr (author b)), (lit ''copies'', JInt (copies b))]"

text \<open>\<^verbatim>\<open>data[k]\<close> on a loaded value.\<close>

fun subscript :: "json \<Rightarrow> pystr \<Rightarrow> error + json" where
  "subscript (JDict kvs) k = (case dict_get kvs k of None \<Rightarrow> Inl KeyError | Some v \<Rightarrow> Inr v)"
| "subscript _ k = Inl TypeError"

text \<open>
  The fields of the model are typed, Python's are not: a loaded value of another type
  than the field's is reported as \<open>Ill_typed\<close> at once, where Python would store it and
  fail, or not, at a later use.
\<close>

fun as_str :: "json \<Rightarrow> error + pystr" where
  "as_str (JStr s) = Inr s"
| "as_str _ = Inl Ill_typed"

fun as_int :: "json \<Rightarrow> error + int" where
  "as_int (JInt i) = Inr i"
| "as_int _ = Inl Ill_typed"

text \<open>
  \<^verbatim>\<open>Book.from_dict\<close>: \<^verbatim>\<open>Book(data['title'], data['author'], data['copies'], data['id'])\<close>,
  the four subscripts evaluated in this order.
\<close>

definition from_dict :: "json \<Rightarrow> error + book" where
  "from_dict data =
     and_then (subscript data (lit ''title'')) (\<lambda>jt.
     and_then (subscript data (lit ''author'')) (\<lambda>ja.
     and_then (subscript data (lit ''copies'')) (\<lambda>jc.
     and_then (subscript data (lit ''id'')) (\<lambda>ji.
     and_then (as_str jt) (\<lambda>t.
     and_then (as_str ja) (\<lambda>a.
     and_then (as_int jc) (\<lambda>c.
     and_then (as_str ji) (\<lambda>i.
       Inr \<lparr>id_book = i, title = t, author = a, copies = c\<rparr>))))))))"

definition loan_to_json :: "loan \<Rightarrow> json" where
  "loan_to_json r =
     JDict [(lit ''user_id'', JStr (user_id r)), (lit ''book_id'', JStr (book_id r)),
            (lit ''due_date'', JStr (due_date r))]"

text \<open>
  A loaded loan record is kept when it is a dict with exactly the three string entries;
  the order of the keys is immaterial, as for a Python dict.
\<close>

definition loan_of_json :: "json \<Rightarrow> error + loan" where
  "loan_of_json j =
     (case j of
        JDict kvs \<Rightarrow>
          (case (dict_get kvs (lit ''user_id''), dict_get kvs (lit ''book_id''), dict_get kvs (lit ''due_date'')) of
             (Some (JStr u), Some (JStr b), Some (JStr d)) \<Rightarrow>
               if length kvs = 3 then Inr \<lparr>user_id = u, book_id = b, due_date = d\<rparr>
               else Inl Ill_typed
           | _ \<Rightarrow> Inl Ill_typed)
      | _ \<Rightarrow> Inl Ill_typed)"

fun loans_of_json :: "json list \<Rightarrow> error + loan list" where
  "loans_of_json [] = Inr []"
| "loans_of_json (j # js) =
     and_then (loan_of_json j) (\<lambda>r. and_then (loans_of_json js) (\<lambda>rs. Inr (r # rs)))"

subsection \<open>The state: the manager, its data file and the console\<close>

text \<open>
  One constructor for each line that the modelled functions print, with the values
  interpolated into it. Banners, table rulers and the prompts of \<^verbatim>\<open>input()\<close> are not
  recorded.
\<close>

datatype message =
    Info_loaded
  | Err_load
  | Info_no_file
  | Info_saved
  | Err_save
  | Err_copies_borrowed pystr
  | Removed pystr
  | Err_book_not_found pystr
  | Info_no_match pystr
  | Search_results pystr "(pystr \<times> pystr \<times> pystr \<times> int) list"
  | Report_totals int int int
  | Report_overdue int
  | Err_limit
  | Borrowed pystr pystr
  | Err_all_borrowed pystr
  | Returned pystr
  | Err_no_record pystr
  | Err_positive_number
  | Added pystr pystr

text \<open>The file named by \<^verbatim>\<open>data_file\<close>: missing, not readable as JSON, or a document.\<close>

datatype disk_file = Absent | Unreadable | Stored json

text \<open>
  \<open>books\<close> and \<open>borrowed_records\<close> are the fields of the object. \<open>data_file\<close> is the
  content of the file of that name, \<open>writable\<close> says whether opening and writing it
  succeeds (otherwise \<^verbatim>\<open>IOError\<close> is raised inside \<^verbatim>\<open>save_data\<close>), and
  \<open>console\<close> is what has been printed so far.
\<close>

record manager =
  books :: "(pystr, book) dict"
  borrowed_records :: "loan list"
  data_file :: disk_file
  writable :: bool
  console :: "message list"

definition print :: "message \<Rightarrow> manager \<Rightarrow> manager" where
  "print m s = s\<lparr>console := console s @ [m]\<rparr>"

subsection \<open>Persistence\<close>

text \<open>The document built by \<^verbatim>\<open>save_data\<close> (\<^verbatim>\<open>data_to_save\<close>).\<close>

definition data_to_save :: "manager \<Rightarrow> json" where
  "data_to_save s =
     JDict [(lit ''books'', JDict (map (\<lambda>(k, b). (k, to_dict b)) (books s))),
            (lit ''borrowed_records'', JList (map loan_to_json (borrowed_records s)))]"

text \<open>\<^verbatim>\<open>save_data\<close>: the whole document replaces the file; an \<^verbatim>\<open>IOError\<close> is only printed.\<close>

definition save_data :: "manager \<Rightarrow> manager" where
  "save_data s =
     (if writable s then print Info_saved (s\<lparr>data_file := Stored (data_to_save s)\<rparr>)
      else print Err_save s)"

text \<open>\<^verbatim>\<open>data.get(k, default)\<close> and \<^verbatim>\<open>.values()\<close>, which only a dict has.\<close>

fun get_default :: "json \<Rightarrow> pystr \<Rightarrow> json \<Rightarrow> error + json" where
  "get_default (JDict kvs) k dflt = Inr (case dict_get kvs k of None \<Rightarrow> dflt | Some v \<Rightarrow> v)"
| "get_default _ k dflt = Inl AttributeError"

fun json_values :: "json \<Rightarrow> error + json list" where
  "json_values (JDict kvs) = Inr (dict_values kvs)"
| "json_values _ = Inl AttributeError"

text \<open>The loop of \<^verbatim>\<open>load_data\<close> over the loaded book dicts.\<close>

fun load_books :: "json list \<Rightarrow> (pystr, book) dict \<Rightarrow> error + (pystr, book) dict" where
  "load_books [] d = Inr d"
| "load_books (j # js) d =
     and_then (from_dict j) (\<lambda>b. load_books js (dict_set (id_book b) b d))"

text \<open>
  \<^verbatim>\<open>load_data\<close> takes the value under \<^verbatim>\<open>borrowed_records\<close> as it is; the typed model
  keeps it when it is a list of loan records.
\<close>

fun as_list :: "json \<Rightarrow> error + json list" where
  "as_list (JList js) = Inr js"
| "as_list _ = Inl Ill_typed"

definition initial_books :: "book list" where
  "initial_books =
     [\<lparr>id_book = lit ''1'', title = lit ''The Great Gatsby'', author = lit ''F. Scott Fitzgerald'', copies = 3\<rparr>,
      \<lparr>id_book = lit ''2'', title = lit ''1984'', author = lit ''George Orwell'', copies = 5\<rparr>,
      \<lparr>id_book = lit ''3'', title = lit ''Moby Dick'', author = lit ''Herman Melville'', copies = 1\<rparr>]"

text \<open>
  \<^verbatim>\<open>load_data\<close>. Only \<^verbatim>\<open>JSONDecodeError\<close> and \<^verbatim>\<open>IOError\<close> are caught; any other
  exception leaves the function.
\<close>

definition load_data :: "manager \<Rightarrow> error + manager" where
  "load_data s =
     (case data_file s of
        Stored data \<Rightarrow>
          and_then (get_default data (lit ''books'') (JDict [])) (\<lambda>jbooks.
          and_then (json_values jbooks) (\<lambda>book_dicts.
          and_then (load_books book_dicts (books s)) (\<lambda>bs.
          and_then (get_default data (lit ''borrowed_records'') (JList [])) (\<lambda>jrecords.
          and_then (as_list jrecords) (\<lambda>jrs.
          and_then (loans_of_json jrs) (\<lambda>rs.
            Inr (print Info_loaded (s\<lparr>books := bs, borrowed_records := rs\<rparr>))))))))
      | Unreadable \<Rightarrow> Inr (print Err_load s)
      | Absent \<Rightarrow>
          Inr ((print Info_no_file s)
                 \<lparr>books := fold (\<lambda>b d. dict_set (id_book b) b d) initial_books (books s)\<rparr>))"

text \<open>\<^verbatim>\<open>LibraryManager.__init__\<close>: empty fields, then \<^verbatim>\<open>load_data\<close>.\<close>

definition new_manager :: "disk_file \<Rightarrow> bool \<Rightarrow> message list \<Rightarrow> error + manager" where
  "new_manager f w out =
     load_data \<lparr>books = [], borrowed_records = [], data_file = f, writable = w, console = out\<rparr>"

subsection \<open>Catalog operations\<close>

text \<open>\<^verbatim>\<open>get_borrowed_count\<close>\<close>

definition get_borrowed_count :: "manager \<Rightarrow> pystr \<Rightarrow> int" where
  "get_borrowed_count s bid = int (length (filter (\<lambda>r. book_id r = bid) (borrowed_records s)))"

text \<open>\<^verbatim>\<open>add_book\<close>; \<open>new_id\<close> is the value of \<^verbatim>\<open>str(uuid.uuid4())\<close>.\<close>

definition add_book :: "manager \<Rightarrow> pystr \<Rightarrow> pystr \<Rightarrow> int \<Rightarrow> pystr \<Rightarrow> book \<times> manager" where
  "add_book s t a c new_id =
     (let new_book = \<lparr>id_book = new_id, title = t, author = a, copies = c\<rparr>
      in (new_book, save_data (s\<lparr>books := dict_set (id_book new_book) new_book (books s)\<rparr>)))"

text \<open>\<^verbatim>\<open>delete_book\<close>\<close>

definition delete_book :: "manager \<Rightarrow> pystr \<Rightarrow> bool \<times> manager" where
  "delete_book s bid =
     (case dict_get (books s) bid of
        Some book_to_delete \<Rightarrow>
          if get_borrowed_count s bid > 0
          then (False, print (Err_copies_borrowed (title book_to_delete)) s)
          else (True, print (Removed (title book_to_delete))
                        (save_data (s\<lparr>books := dict_del bid (books s)\<rparr>)))
      | None \<Rightarrow> (False, print (Err_book_not_found bid) s))"

subsection \<open>Search and report\<close>

text \<open>\<^verbatim>\<open>s.startswith(p)\<close> and the substring test \<^verbatim>\<open>q in s\<close>.\<close>

fun startswith :: "pystr \<Rightarrow> pystr \<Rightarrow> bool" where
  "startswith s [] = True"
| "startswith [] (p # ps) = False"
| "startswith (c # cs) (p # ps) = (c = p \<and> startswith cs ps)"

fun str_in :: "pystr \<Rightarrow> pystr \<Rightarrow> bool" where
  "str_in q [] = (q = [])"
| "str_in q (c # cs) = (startswith (c # cs) q \<or> str_in q cs)"

text \<open>
  The list \<^verbatim>\<open>results\<close> that \<^verbatim>\<open>search_books\<close> builds; \<open>q\<close> is the lowered query and
  \<open>lower\<close> is \<^verbatim>\<open>str.lower\<close>.
\<close>

fun results :: "(pystr \<Rightarrow> pystr) \<Rightarrow> manager \<Rightarrow> pystr \<Rightarrow> book list \<Rightarrow> (book \<times> int) list" where
  "results lower s q [] = []"
| "results lower s q (b # bs) =
     (if str_in q (lower (title b)) \<or> str_in q (lower (author b))
      then (b, copies b - get_borrowed_count s (id_book b)) # results lower s q bs
      else results lower s q bs)"

definition table_row :: "book \<times> int \<Rightarrow> pystr \<times> pystr \<times> pystr \<times> int" where
  "table_row r = (id_book (fst r), title (fst r), author (fst r), snd r)"

text \<open>
  \<^verbatim>\<open>search_books\<close>. The method prints the matches and has no \<^verbatim>\<open>return\<close> with a
  value: the first component is what it returns, \<open>None\<close> for Python's \<^verbatim>\<open>None\<close> on
  both paths; its type is that of the list the method builds and prints.
\<close>

definition search_books ::
  "(pystr \<Rightarrow> pystr) \<Rightarrow> manager \<Rightarrow> pystr \<Rightarrow> (book \<times> int) list option \<times> manager" where
  "search_books lower s query =
     (let q = lower query; res = results lower s q (dict_values (books s))
      in if res = [] then (None, print (Info_no_match q) s)
         else (None, print (Search_results q (map table_row res)) s))"

text \<open>The overdue loop of \<^verbatim>\<open>generate_simple_report\<close>.\<close>

fun count_overdue :: "date \<Rightarrow> loan list \<Rightarrow> int \<Rightarrow> error + int" where
  "count_overdue today [] overdue_count = Inr overdue_count"
| "count_overdue today (r # rs) overdue_count =
     (case fromisoformat (due_date r) of
        None \<Rightarrow> Inl ValueError
      | Some d \<Rightarrow>
          count_overdue today rs (if date_less d today then overdue_count + 1 else overdue_count))"

text \<open>
  \<^verbatim>\<open>generate_simple_report\<close>; \<open>today\<close> is \<^verbatim>\<open>datetime.date.today()\<close>. A due date
  that does not parse raises \<^verbatim>\<open>ValueError\<close>, which nothing catches.
\<close>

definition generate_simple_report :: "manager \<Rightarrow> date \<Rightarrow> error + manager" where
  "generate_simple_report s today =
     (let total_unique_books = int (length (books s));
          total_copies = sum_list (map copies (dict_values (books s)));
          total_issued = int (length (borrowed_records s));
          s1 = print (Report_totals total_unique_books total_copies total_issued) s
      in and_then (count_overdue today (borrowed_records s) 0)
           (\<lambda>overdue_count. Inr (print (Report_overdue overdue_count) s1)))"

subsection \<open>Borrowing and returning\<close>

text \<open>
  \<^verbatim>\<open>borrow_book\<close>; the user id is \<open>None\<close> for Python's \<^verbatim>\<open>None\<close>, and \<open>today\<close> is
  \<^verbatim>\<open>datetime.date.today()\<close>.
\<close>

definition borrow_book :: "manager \<Rightarrow> pystr \<Rightarrow> pystr option \<Rightarrow> date \<Rightarrow> manager" where
  "borrow_book s bid uid today =
     (case uid of
        None \<Rightarrow> s
      | Some u \<Rightarrow>
          if int (length (filter (\<lambda>r. user_id r = u) (borrowed_records s))) \<ge> 3
          then print Err_limit s
          else
            (case dict_get (books s) bid of
               None \<Rightarrow> print (Err_book_not_found bid) s
             | Some book_to_borrow \<Rightarrow>
                 let available_copies = copies book_to_borrow - get_borrowed_count s bid
                 in if available_copies > 0 then
                      let due = strftime_ymd (plus_days today 7);
                          new_record = \<lparr>user_id = u, book_id = bid, due_date = due\<rparr>
                      in print (Borrowed (title book_to_borrow) due)
                           (save_data (s\<lparr>borrowed_records := borrowed_records s @ [new_record]\<rparr>))
                    else print (Err_all_borrowed (title book_to_borrow)) s))"

text \<open>
  \<^verbatim>\<open>return_book\<close>. \<^verbatim>\<open>next(...)\<close> gives the first record of this user and book;
  \<^verbatim>\<open>list.remove\<close> deletes the first element equal to it.
\<close>

definition return_book :: "manager \<Rightarrow> pystr \<Rightarrow> pystr option \<Rightarrow> manager" where
  "return_book s bid uid =
     (case uid of
        None \<Rightarrow> s
      | Some u \<Rightarrow>
          (case find (\<lambda>r. user_id r = u \<and> book_id r = bid) (borrowed_records s) of
             Some record_to_remove \<Rightarrow>
               let s1 = save_data (s\<lparr>borrowed_records := remove1 record_to_remove (borrowed_records s)\<rparr>);
                   t = (case dict_get (books s1) bid of Some b \<Rightarrow> title b | None \<Rightarrow> lit ''Unknown Book'')
               in print (Returned t) s1
           | None \<Rightarrow> print (Err_no_record bid) s))"

subsection \<open>The staff menu for adding a book\<close>

text \<open>
  The loop of \<^verbatim>\<open>staff_add_book_menu\<close>. Each element of the list is one answer to the
  prompt for the number of copies, after \<^verbatim>\<open>int(...)\<close>: \<open>None\<close> where \<^verbatim>\<open>int\<close> raises
  \<^verbatim>\<open>ValueError\<close>. When the answers run out, \<^verbatim>\<open>input\<close> raises \<^verbatim>\<open>EOFError\<close>, which the
  loop does not catch.
\<close>

fun read_copies :: "int option list \<Rightarrow> manager \<Rightarrow> (error + int) \<times> manager" where
  "read_copies [] s = (Inl EOFError, s)"
| "read_copies (None # answers) s = read_copies answers (print Err_positive_number s)"
| "read_copies (Some c # answers) s =
     (if c \<le> 0 then read_copies answers (print Err_positive_number s) else (Inr c, s))"

text \<open>
  \<^verbatim>\<open>staff_add_book_menu\<close>, with the title and the author already read. The first
  component is the exception that leaves the menu, if any.
\<close>

definition staff_add_book_menu ::
  "manager \<Rightarrow> pystr \<Rightarrow> pystr \<Rightarrow> int option list \<Rightarrow> pystr \<Rightarrow> error option \<times> manager" where
  "staff_add_book_menu s t a answers new_id =
     (case read_copies answers s of
        (Inl e, s1) \<Rightarrow> (Some e, s1)
      | (Inr c, s1) \<Rightarrow> (None, print (Added t a) (snd (add_book s1 t a c new_id))))"

subsection \<open>Sequences of operations\<close>

text \<open>
  A call of one of the operations of the store, with the values that the environment
  supplies to it (the fresh id of \<^verbatim>\<open>add_book\<close>, the current date).
\<close>

datatype operation =
    AddBook pystr pystr int pystr
  | DeleteBook pystr
  | BorrowBook pystr "pystr option" date
  | ReturnBook pystr "pystr option"
  | SearchBooks pystr
  | GenerateReport date

fun exec_op :: "(pystr \<Rightarrow> pystr) \<Rightarrow> operation \<Rightarrow> manager \<Rightarrow> error + manager" where
  "exec_op lower (AddBook t a c new_id) s = Inr (snd (add_book s t a c new_id))"
| "exec_op lower (DeleteBook bid) s = Inr (snd (delete_book s bid))"
| "exec_op lower (BorrowBook bid uid today) s = Inr (borrow_book s bid uid today)"
| "exec_op lower (ReturnBook bid uid) s = Inr (return_book s bid uid)"
| "exec_op lower (SearchBooks query) s = Inr (snd (search_books lower s query))"
| "exec_op lower (GenerateReport today) s = generate_simple_report s today"

text \<open>An exception ends the program: the operations after it are not run.\<close>

fun run :: "(pystr \<Rightarrow> pystr) \<Rightarrow> operation list \<Rightarrow> manager \<Rightarrow> manager" where
  "run lower [] s = s"
| "run lower (x # xs) s =
     (case exec_op lower x s of Inl e \<Rightarrow> s | Inr s' \<Rightarrow> run lower xs s')"

subsection \<open>Notions of the specification\<close>

text \<open>A loan is overdue on a day when its due date reads as a date strictly before that day.\<close>

definition overdue_on :: "date \<Rightarrow> loan \<Rightarrow> bool" where
  "overdue_on today r =
     (case fromisoformat (due_date r) of None \<Rightarrow> False | Some d \<Rightarrow> date_less d today)"

text \<open>The number of active loans of a user, and the number of loan records of a book.\<close>

definition user_loans :: "manager \<Rightarrow> pystr \<Rightarrow> int" where
  "user_loans s u = int (length (filter (\<lambda>r. user_id r = u) (borrowed_records s)))"

definition borrowedCount :: "manager \<Rightarrow> book \<Rightarrow> int" where
  "borrowedCount s b = int (length (filter (\<lambda>r. book_id r = id_book b) (borrowed_records s)))"

text \<open>The available copies of the book stored under an id, if there is one.\<close>

definition available :: "manager \<Rightarrow> pystr \<Rightarrow> int option" where
  "available s bid =
     (case dict_get (books s) bid of
        None \<Rightarrow> None
      | Some b \<Rightarrow> Some (copies b - get_borrowed_count s bid))"

text \<open>
  When a loan is refused: the user holds three loans or more, or the book is unknown,
  or no copy of it is available.
\<close>

definition refused :: "manager \<Rightarrow> pystr \<Rightarrow> pystr \<Rightarrow> bool" where
  "refused s bid u =
     (user_loans s u \<ge> 3 \<or>
      (case available s bid of None \<Rightarrow> True | Some n \<Rightarrow> n \<le> 0))"

text \<open>
  A string occurs in another one when, at some position of the other one, the next
  code points are those of the string.
\<close>

definition occurs_in :: "pystr \<Rightarrow> pystr \<Rightarrow> bool" where
  "occurs_in q t = list_ex (\<lambda>i. take (length q) (drop i t) = q) [0..<Suc (length t)]"

text \<open>
  The books for which the lowered query occurs in the lowered title or in the lowered
  author, each with its availability, in the order of the catalog.
\<close>

definition matching_books :: "(pystr \<Rightarrow> pystr) \<Rightarrow> manager \<Rightarrow> pystr \<Rightarrow> (book \<times> int) list" where
  "matching_books lower s query =
     map (\<lambda>b. (b, copies b - borrowedCount s b))
       (filter (\<lambda>b. occurs_in (lower query) (lower (title b))
                    \<or> occurs_in (lower query) (lower (author b)))
          (dict_values (books s)))"

text \<open>
  Text of code points below 256. Its capital letters are A to Z and the code points 192
  to 222 without the multiplication sign 215; the small letter of each is 32 above it,
  and \<^verbatim>\<open>str.lower\<close> replaces every capital letter of such a text by its small letter
  and nothing else.
\<close>

definition latin1 :: "pystr \<Rightarrow> bool" where
  "latin1 x = list_all (\<lambda>c. c < 256) x"

definition capital :: "nat \<Rightarrow> bool" where
  "capital c = ((65 \<le> c \<and> c \<le> 90) \<or> (192 \<le> c \<and> c \<le> 222 \<and> c \<noteq> 215))"

definition lower_latin1 :: "pystr \<Rightarrow> pystr" where
  "lower_latin1 x = map (\<lambda>c. if capital c then c + 32 else c) x"

text \<open>
  The small letters that have a capital letter below 256 are a to z and the code points
  224 to 254 without the division sign 247. Two code points are the same letter up to
  case when they are equal or one of them is such a small letter and the other one is
  32 below it. A text contains a query as a case-insensitive substring when, at some
  position, the next code points are those of the query up to case.
\<close>

definition small_letter :: "nat \<Rightarrow> bool" where
  "small_letter c = ((97 \<le> c \<and> c \<le> 122) \<or> (224 \<le> c \<and> c \<le> 254 \<and> c \<noteq> 247))"

definition same_letter :: "nat \<Rightarrow> nat \<Rightarrow> bool" where
  "same_letter a b =
     (a = b \<or> (small_letter b \<and> b = a + 32) \<or> (small_letter a \<and> a = b + 32))"

definition contains_ci :: "pystr \<Rightarrow> pystr \<Rightarrow> bool" where
  "contains_ci query t =
     list_ex (\<lambda>i. list_all2 same_letter query (take (length query) (drop i t)))
       [0..<Suc (length t)]"

text \<open>
  The books whose title or author contains the query as a case-insensitive substring,
  each with its availability, in the order of the catalog.
\<close>

definition matching_books_ci :: "manager \<Rightarrow> pystr \<Rightarrow> (book \<times> int) list" where
  "matching_books_ci s query =
     map (\<lambda>b. (b, copies b - borrowedCount s b))
       (filter (\<lambda>b. contains_ci query (title b) \<or> contains_ci query (author b))
          (dict_values (books s)))"

text \<open>An answer to the prompt for the number of copies that the staff menu rejects.\<close>

definition rejected :: "int option \<Rightarrow> bool" where
  "rejected x = (case x of None \<Rightarrow> True | Some c \<Rightarrow> c \<le> 0)"

text \<open>
  The catalog of a manager is a dict (its keys are distinct) in which every book is
  stored under its own id, as each assignment \<^verbatim>\<open>self.books[book.id] = book\<close> of the
  source does.
\<close>

definition wf_store :: "manager \<Rightarrow> bool" where
  "wf_store s =
     (distinct (dict_keys (books s)) \<and> list_all (\<lambda>kb. id_book (snd kb) = fst kb) (books s))"

text \<open>
  No book has more loan records than copies, and every loan record is for a book of
  the catalog.
\<close>

definition loans_ok :: "manager \<Rightarrow> bool" where
  "loans_ok s =
     (list_all (\<lambda>kb. get_borrowed_count s (fst kb) \<le> copies (snd kb)) (books s)
      \<and> list_all (\<lambda>r. dict_has (books s) (book_id r)) (borrowed_records s))"

text \<open>
  The calls of \<^verbatim>\<open>add_book\<close> in a sequence pass a copy count that is not negative, and
  the id that \<^verbatim>\<open>uuid4\<close> generates is not a key of the catalog.
\<close>

fun op_ok :: "manager \<Rightarrow> operation \<Rightarrow> bool" where
  "op_ok s (AddBook t a c new_id) = (0 \<le> c \<and> \<not> dict_has (books s) new_id)"
| "op_ok s _ = True"

fun ops_ok :: "(pystr \<Rightarrow> pystr) \<Rightarrow> manager \<Rightarrow> operation list \<Rightarrow> bool" where
  "ops_ok lower s [] = True"
| "ops_ok lower s (x # xs) =
     (op_ok s x
      \<and> (case exec_op lower x s of Inl e \<Rightarrow> True | Inr s' \<Rightarrow> ops_ok lower s' xs))"

subsection \<open>Example stores\<close>

text \<open>The manager created when there is no data file and the file can be written.\<close>

definition seeded_store :: manager where
  "seeded_store =
     \<lparr>books = map (\<lambda>b. (id_book b, b)) initial_books, borrowed_records = [],
      data_file = Absent, writable = True, console = [Info_no_file]\<rparr>"

definition feb26 :: date where
  "feb26 = \<lparr>year = 2024, month = 2, day = 26\<rparr>"

definition feb27 :: date where
  "feb27 = \<lparr>year = 2024, month = 2, day = 27\<rparr>"

definition dune :: book where
  "dune = \<lparr>id_book = lit ''b4'', title = lit ''Dune'', author = lit ''Herbert'', copies = 2\<rparr>"

text \<open>Dune is added with two copies; user u1 borrows it on two days in a row.\<close>

definition dune_store :: manager where
  "dune_store = snd (add_book seeded_store (lit ''Dune'') (lit ''Herbert'') 2 (lit ''b4''))"

definition dune_lent_once :: manager where
  "dune_lent_once = borrow_book dune_store (lit ''b4'') (Some (lit ''u1'')) feb26"

definition dune_lent_twice :: manager where
  "dune_lent_twice = borrow_book dune_lent_once (lit ''b4'') (Some (lit ''u1'')) feb27"

text \<open>A book is added with the copy count -1.\<close>

definition negative_store :: manager where
  "negative_store = snd (add_book seeded_store (lit ''Dune'') (lit ''Herbert'') (- 1) (lit ''b4''))"

text \<open>User u1 tries to borrow the second sample book four times.\<close>

definition four_loans :: "operation list" where
  "four_loans =
     [BorrowBook (lit ''2'') (Some (lit ''u1'')) feb26, BorrowBook (lit ''2'') (Some (lit ''u1'')) feb26,
      BorrowBook (lit ''2'') (Some (lit ''u1'')) feb27, BorrowBook (lit ''2'') (Some (lit ''u1'')) feb27]"

text \<open>
  Dune is added with two copies, u1 borrows both, u2 finds none left, u1 returns one;
  then the second sample book is deleted, and a search and a report follow.
\<close>

definition busy_week :: "operation list" where
  "busy_week =
     [AddBook (lit ''Dune'') (lit ''Herbert'') 2 (lit ''b4''),
      BorrowBook (lit ''b4'') (Some (lit ''u1'')) feb26,
      BorrowBook (lit ''b4'') (Some (lit ''u1'')) feb27,
      BorrowBook (lit ''b4'') (Some (lit ''u2'')) feb27,
      ReturnBook (lit ''b4'') (Some (lit ''u1'')),
      DeleteBook (lit ''2''),
      SearchBooks (lit ''dune''),
      GenerateReport feb27]"

text \<open>
  A catalog with one book, whose title is the Greek word of the code points 927, 916,
  933, 931, 931, 917, 921, 913, in capital letters, and whose author is written in
  small letters. The query is the first four letters of the title.
\<close>

definition odysseia :: pystr where
  "odysseia = [927, 916, 933, 931, 931, 917, 921, 913]"

definition odys :: pystr where
  "odys = [927, 916, 933, 931]"

definition greek_store :: manager where
  "greek_store =
     \<lparr>books = [(lit ''5'', \<lparr>id_book = lit ''5'', title = odysseia, author = lit ''homer'',
                             copies = 1\<rparr>)],
      borrowed_records = [], data_file = Absent, writable = True, console = []\<rparr>"

text \<open>
  The values of \<^verbatim>\<open>str.lower\<close> on the three strings of this example, as Python
  computes them: the capital sigma 931 at the end of the query becomes the final sigma
  962, the two inside the title become the sigma 963, every other capital letter moves
  up by 32, and the author, in small letters already, is unchanged. No other value of
  the function is used.
\<close>

definition lower_greek_example :: "pystr \<Rightarrow> pystr" where
  "lower_greek_example x =
     (if x = odys then [959, 948, 965, 962]
      else if x = odysseia then [959, 948, 965, 963, 963, 949, 953, 945]
      else x)"

section \<open>Properties\<close>

subsection \<open>Literals\<close>

lemma lit_eq_iff [simp]: "lit a = lit b \<longleftrightarrow> a = b"
  by (simp add: lit_def inj_map_eq_map inj_on_def)

lemma lit_Nil_iff [simp]: "lit a = [] \<longleftrightarrow> a = []" "[] = lit a \<longleftrightarrow> a = []"
  by (auto simp: lit_def)

subsection \<open>Dictionaries\<close>

lemma dict_keys_simps [simp]:
  "dict_keys [] = []" "dict_keys ((k, v) # d) = k # dict_keys d"
  by (simp_all add: dict_keys_def)

lemma dict_get_None_iff: "dict_get d k = None \<longleftrightarrow> k \<notin> set (dict_keys d)"
  by (induction d k rule: dict_get.induct) auto

lemma dict_has_keys: "dict_has d k \<longleftrightarrow> k \<in> set (dict_keys d)"
  by (simp add: dict_has_def dict_get_None_iff)

lemma dict_get_in_set: "dict_get d k = Some v \<Longrightarrow> (k, v) \<in> set d"
  by (induction d k rule: dict_get.induct) (auto split: if_splits)

lemma in_set_dict_keys: "(k, v) \<in> set d \<Longrightarrow> k \<in> set (dict_keys d)"
  by (induction d) auto

lemma in_set_dict_get:
  "distinct (dict_keys d) \<Longrightarrow> (k, v) \<in> set d \<Longrightarrow> dict_get d k = Some v"
  by (induction d k rule: dict_get.induct) (auto dest: in_set_dict_keys)

lemma dict_keys_dict_set:
  "dict_keys (dict_set k v d)
     = (if k \<in> set (dict_keys d) then dict_keys d else dict_keys d @ [k])"
  by (induction k v d rule: dict_set.induct) auto

lemma dict_set_fresh: "k \<notin> set (dict_keys d) \<Longrightarrow> dict_set k v d = d @ [(k, v)]"
  by (induction k v d rule: dict_set.induct) auto

lemma distinct_dict_set: "distinct (dict_keys d) \<Longrightarrow> distinct (dict_keys (dict_set k v d))"
  by (simp add: dict_keys_dict_set)

lemma set_dict_set_subset: "set (dict_set k v d) \<subseteq> insert (k, v) (set d)"
  by (induction k v d rule: dict_set.induct) auto

lemma set_dict_del_subset: "set (dict_del k d) \<subseteq> set d"
  by (induction k d rule: dict_del.induct) auto

lemma dict_get_dict_del_other: "k' \<noteq> k \<Longrightarrow> dict_get (dict_del k d) k' = dict_get d k'"
  by (induction k d rule: dict_del.induct) auto

lemma dict_del_filter:
  "distinct (dict_keys d) \<Longrightarrow> dict_del k d = filter (\<lambda>kv. fst kv \<noteq> k) d"
proof (induction k d rule: dict_del.induct)
  case (1 k)
  then show ?case by simp
next
  case (2 k k' v' d)
  show ?case
  proof (cases "k' = k")
    case True
    with "2.prems" have "\<forall>kv\<in>set d. fst kv \<noteq> k"
      by (auto dest: in_set_dict_keys)
    then have "filter (\<lambda>kv. fst kv \<noteq> k) d = d"
      by (simp add: filter_id_conv)
    with True show ?thesis by simp
  next
    case False
    with 2 show ?thesis by simp
  qed
qed

subsection \<open>What the operations leave unchanged\<close>

lemma print_fields [simp]:
  "books (print m s) = books s" "borrowed_records (print m s) = borrowed_records s"
  "data_file (print m s) = data_file s" "writable (print m s) = writable s"
  "console (print m s) = console s @ [m]"
  by (simp_all add: print_def)

lemma save_data_fields [simp]:
  "books (save_data s) = books s" "borrowed_records (save_data s) = borrowed_records s"
  "writable (save_data s) = writable s"
  by (simp_all add: save_data_def print_def)

lemma data_to_save_print [simp]: "data_to_save (print m s) = data_to_save s"
  by (simp add: data_to_save_def)

lemma data_to_save_save_data [simp]: "data_to_save (save_data s) = data_to_save s"
  by (simp add: data_to_save_def)

lemma data_file_save_data:
  "writable s \<Longrightarrow> data_file (save_data s) = Stored (data_to_save s)"
  by (simp add: save_data_def print_def)

lemma get_borrowed_count_nonneg: "0 \<le> get_borrowed_count s bid"
  by (simp add: get_borrowed_count_def)

lemma snd_add_book:
  "snd (add_book s t a c new_id)
     = save_data (s\<lparr>books := dict_set new_id
                      \<lparr>id_book = new_id, title = t, author = a, copies = c\<rparr> (books s)\<rparr>)"
  by (simp add: add_book_def Let_def)

lemma books_borrow_book: "books (borrow_book s bid uid today) = books s"
  by (cases uid) (simp_all add: borrow_book_def Let_def split: option.splits)

lemma books_return_book: "books (return_book s bid uid) = books s"
  by (cases uid) (simp_all add: return_book_def Let_def split: option.splits)

lemma books_search_books: "books (snd (search_books lower s q)) = books s"
  by (simp add: search_books_def Let_def)

lemma generate_simple_report_records:
  "generate_simple_report s today = Inr s' \<Longrightarrow>
   books s' = books s \<and> borrowed_records s' = borrowed_records s"
  by (cases "count_overdue today (borrowed_records s) 0")
     (auto simp: generate_simple_report_def Let_def)

subsection \<open>The seeded store and the report\<close>

lemma count_overdue_parsed:
  "list_all (\<lambda>r. fromisoformat (due_date r) \<noteq> None) rs \<Longrightarrow>
   count_overdue today rs n = Inr (n + int (length (filter (overdue_on today) rs)))"
  by (induction rs arbitrary: n) (auto simp: overdue_on_def)

lemma new_manager_Absent:
  "new_manager Absent w out =
     Inr \<lparr>books = map (\<lambda>b. (id_book b, b)) initial_books, borrowed_records = [],
          data_file = Absent, writable = w, console = out @ [Info_no_file]\<rparr>"
  by (simp add: new_manager_def load_data_def print_def initial_books_def)

text \<open>
  Claim C8. Without a data file the new manager holds exactly the three sample books,
  under the keys 1, 2 and 3 and with 3, 5 and 1 copies, and no loan record; the report
  on it prints 3 titles, 9 copies, 0 issued and 0 overdue. In any state whose due dates
  all parse, the report prints the number of books, the sum of their copies, the number
  of loan records and the number of loans due strictly before today.
\<close>

theorem seeded_report:
  "(\<exists>s0. new_manager Absent w out = Inr s0
      \<and> dict_keys (books s0) = [lit ''1'', lit ''2'', lit ''3'']
      \<and> dict_values (books s0) = initial_books
      \<and> map copies (dict_values (books s0)) = [3, 5, 1]
      \<and> borrowed_records s0 = []
      \<and> generate_simple_report s0 today
          = Inr (print (Report_overdue 0) (print (Report_totals 3 9 0) s0)))
   \<and> (list_all (\<lambda>r. fromisoformat (due_date r) \<noteq> None) (borrowed_records s) \<longrightarrow>
        generate_simple_report s today
          = Inr (print (Report_overdue (int (length (filter (overdue_on today) (borrowed_records s)))))
                  (print (Report_totals (int (length (books s)))
                            (sum_list (map copies (dict_values (books s))))
                            (int (length (borrowed_records s)))) s)))"
proof (intro conjI impI)
  show "\<exists>s0. new_manager Absent w out = Inr s0
      \<and> dict_keys (books s0) = [lit ''1'', lit ''2'', lit ''3'']
      \<and> dict_values (books s0) = initial_books
      \<and> map copies (dict_values (books s0)) = [3, 5, 1]
      \<and> borrowed_records s0 = []
      \<and> generate_simple_report s0 today
          = Inr (print (Report_overdue 0) (print (Report_totals 3 9 0) s0))"
    unfolding new_manager_Absent
    by (simp add: initial_books_def dict_keys_def dict_values_def generate_simple_report_def)
next
  assume "list_all (\<lambda>r. fromisoformat (due_date r) \<noteq> None) (borrowed_records s)"
  then show "generate_simple_report s today
          = Inr (print (Report_overdue (int (length (filter (overdue_on today) (borrowed_records s)))))
                  (print (Report_totals (int (length (books s)))
                            (sum_list (map copies (dict_values (books s))))
                            (int (length (borrowed_records s)))) s))"
    by (simp add: generate_simple_report_def count_overdue_parsed Let_def)
qed

text \<open>
  The report of 5 March 2024 on a store with one book of two copies, both lent, one
  loan due the day before and one due a week later: one loan is overdue.
\<close>

theorem seeded_report_witness:
  "list_all (\<lambda>r. fromisoformat (due_date r) \<noteq> None)
     [\<lparr>user_id = lit ''u1'', book_id = lit ''7'', due_date = lit ''2024-03-04''\<rparr>,
      \<lparr>user_id = lit ''u2'', book_id = lit ''7'', due_date = lit ''2024-03-12''\<rparr>]
   \<and> generate_simple_report
       \<lparr>books = [(lit ''7'', \<lparr>id_book = lit ''7'', title = lit ''Dune'', author = lit ''Herbert'', copies = 2\<rparr>)],
        borrowed_records =
          [\<lparr>user_id = lit ''u1'', book_id = lit ''7'', due_date = lit ''2024-03-04''\<rparr>,
           \<lparr>user_id = lit ''u2'', book_id = lit ''7'', due_date = lit ''2024-03-12''\<rparr>],
        data_file = Absent, writable = True, console = []\<rparr>
       \<lparr>year = 2024, month = 3, day = 5\<rparr>
     = Inr \<lparr>books = [(lit ''7'', \<lparr>id_book = lit ''7'', title = lit ''Dune'', author = lit ''Herbert'', copies = 2\<rparr>)],
        borrowed_records =
          [\<lparr>user_id = lit ''u1'', book_id = lit ''7'', due_date = lit ''2024-03-04''\<rparr>,
           \<lparr>user_id = lit ''u2'', book_id = lit ''7'', due_date = lit ''2024-03-12''\<rparr>],
        data_file = Absent, writable = True,
        console = [Report_totals 1 2 2, Report_overdue 1]\<rparr>"
proof -
  let ?rs = "[\<lparr>user_id = lit ''u1'', book_id = lit ''7'', due_date = lit ''2024-03-04''\<rparr>,
              \<lparr>user_id = lit ''u2'', book_id = lit ''7'', due_date = lit ''2024-03-12''\<rparr>]"
  let ?s = "\<lparr>books = [(lit ''7'', \<lparr>id_book = lit ''7'', title = lit ''Dune'', author = lit ''Herbert'', copies = 2\<rparr>)],
             borrowed_records = ?rs, data_file = Absent, writable = True, console = []\<rparr>"
  let ?today = "\<lparr>year = 2024, month = 3, day = 5\<rparr>"
  have parsed: "list_all (\<lambda>r. fromisoformat (due_date r) \<noteq> None) ?rs"
    by code_simp
  have n: "int (length (filter (overdue_on ?today) ?rs)) = 1"
    by code_simp
  from seeded_report [of True "[]" ?today ?s] parsed
  have "generate_simple_report ?s ?today
          = Inr (print (Report_overdue (int (length (filter (overdue_on ?today) (borrowed_records ?s)))))
                  (print (Report_totals (int (length (books ?s)))
                            (sum_list (map copies (dict_values (books ?s))))
                            (int (length (borrowed_records ?s)))) ?s))"
    by simp
  with n parsed show ?thesis
    by (simp add: print_def dict_values_def)
qed

subsection \<open>A missing user id\<close>

text \<open>
  Claim C10. With the user id \<^verbatim>\<open>None\<close>, \<^verbatim>\<open>borrow_book\<close> and \<^verbatim>\<open>return_book\<close> return
  at once for every book id: the catalog, the loan records, the data file and the
  console are what they were.
\<close>

theorem none_user_is_noop:
  "borrow_book s bid None today = s \<and> return_book s bid None = s"
  by (simp add: borrow_book_def return_book_def)

subsection \<open>The cases of borrowing and returning\<close>

lemma find_split:
  "find P xs = Some r \<Longrightarrow>
   \<exists>pre post. xs = pre @ r # post \<and> P r \<and> (\<forall>x\<in>set pre. \<not> P x) \<and> remove1 r xs = pre @ post"
proof (induction xs)
  case Nil
  then show ?case by simp
next
  case (Cons x xs)
  show ?case
  proof (cases "P x")
    case True
    with Cons.prems have "x = r" by simp
    with True have "x # xs = [] @ r # xs \<and> P r \<and> (\<forall>y\<in>set []. \<not> P y) \<and> remove1 r (x # xs) = [] @ xs"
      by simp
    then show ?thesis by blast
  next
    case False
    with Cons.prems have "find P xs = Some r" by simp
    from Cons.IH [OF this] obtain pre post where
      *: "xs = pre @ r # post" "P r" "\<forall>y\<in>set pre. \<not> P y" "remove1 r xs = pre @ post"
      by blast
    from False * have "x \<noteq> r" by auto
    with False * have "x # xs = (x # pre) @ r # post \<and> P r \<and> (\<forall>y\<in>set (x # pre). \<not> P y)
        \<and> remove1 r (x # xs) = (x # pre) @ post"
      by simp
    then show ?thesis by blast
  qed
qed

lemma find_None_conv: "find P xs = None \<longleftrightarrow> \<not> (\<exists>x\<in>set xs. P x)"
  by (auto simp: find_None_iff)

lemma length_filter_remove1: "length (filter P (remove1 r xs)) \<le> length (filter P xs)"
  by (induction xs) auto

lemma borrow_book_cases:
  "(\<exists>u b. uid = Some u \<and> dict_get (books s) bid = Some b
        \<and> user_loans s u < 3 \<and> get_borrowed_count s bid < copies b
        \<and> borrow_book s bid uid today
            = print (Borrowed (title b) (strftime_ymd (plus_days today 7)))
                (save_data (s\<lparr>borrowed_records := borrowed_records s
                   @ [\<lparr>user_id = u, book_id = bid, due_date = strftime_ymd (plus_days today 7)\<rparr>]\<rparr>)))
   \<or> borrow_book s bid uid today = s
   \<or> (\<exists>m. borrow_book s bid uid today = print m s)"
proof (cases uid)
  case None
  then show ?thesis by (simp add: borrow_book_def)
next
  case (Some u)
  show ?thesis
  proof (cases "user_loans s u \<ge> 3")
    case True
    with Some have "borrow_book s bid uid today = print Err_limit s"
      by (simp add: borrow_book_def user_loans_def)
    then show ?thesis by blast
  next
    case lim: False
    show ?thesis
    proof (cases "dict_get (books s) bid")
      case None
      with Some lim have "borrow_book s bid uid today = print (Err_book_not_found bid) s"
        by (simp add: borrow_book_def user_loans_def)
      then show ?thesis by blast
    next
      case (Some b)
      show ?thesis
      proof (cases "copies b - get_borrowed_count s bid > 0")
        case True
        with Some \<open>uid = Some u\<close> lim show ?thesis
          by (simp add: borrow_book_def user_loans_def Let_def)
      next
        case False
        with Some \<open>uid = Some u\<close> lim
        have "borrow_book s bid uid today = print (Err_all_borrowed (title b)) s"
          by (simp add: borrow_book_def user_loans_def Let_def)
        then show ?thesis by blast
      qed
    qed
  qed
qed

lemma return_book_cases:
  "(\<exists>r t. r \<in> set (borrowed_records s)
        \<and> return_book s bid uid
            = print (Returned t) (save_data (s\<lparr>borrowed_records := remove1 r (borrowed_records s)\<rparr>)))
   \<or> return_book s bid uid = s
   \<or> (\<exists>m. return_book s bid uid = print m s)"
proof (cases uid)
  case None
  then show ?thesis by (simp add: return_book_def)
next
  case (Some u)
  show ?thesis
  proof (cases "find (\<lambda>r. user_id r = u \<and> book_id r = bid) (borrowed_records s)")
    case None
    with Some have "return_book s bid uid = print (Err_no_record bid) s"
      by (simp add: return_book_def)
    then show ?thesis by blast
  next
    case (Some r)
    from find_split [OF Some] have "r \<in> set (borrowed_records s)" by auto
    moreover from Some \<open>uid = Some u\<close> have "return_book s bid uid
        = print (Returned (case dict_get (books s) bid of Some b \<Rightarrow> title b | None \<Rightarrow> lit ''Unknown Book''))
            (save_data (s\<lparr>borrowed_records := remove1 r (borrowed_records s)\<rparr>))"
      by (simp add: return_book_def Let_def)
    ultimately show ?thesis by blast
  qed
qed

subsection \<open>The example stores\<close>

lemma plus_days_7:
  "plus_days d 7 = next_day (next_day (next_day (next_day (next_day (next_day (next_day d))))))"
  by (simp add: numeral_eq_Suc)

lemma due_feb26: "strftime_ymd (plus_days feb26 7) = lit ''2024-03-04''"
  by code_simp

lemma due_feb27: "strftime_ymd (plus_days feb27 7) = lit ''2024-03-05''"
  by code_simp

lemma seeded_store_fields:
  "books seeded_store = map (\<lambda>b. (id_book b, b)) initial_books"
  "borrowed_records seeded_store = []" "writable seeded_store" "data_file seeded_store = Absent"
  by (simp_all add: seeded_store_def)

lemma dune_store_fields:
  "books dune_store = map (\<lambda>b. (id_book b, b)) initial_books @ [(lit ''b4'', dune)]"
  "borrowed_records dune_store = []" "writable dune_store"
  by (simp_all add: dune_store_def snd_add_book seeded_store_fields initial_books_def dune_def)

lemma dune_lent_once_fields:
  "books dune_lent_once = map (\<lambda>b. (id_book b, b)) initial_books @ [(lit ''b4'', dune)]"
  "borrowed_records dune_lent_once
     = [\<lparr>user_id = lit ''u1'', book_id = lit ''b4'', due_date = lit ''2024-03-04''\<rparr>]"
  "writable dune_lent_once"
  by (simp_all add: dune_lent_once_def borrow_book_def dune_store_fields initial_books_def dune_def
      Let_def get_borrowed_count_def due_feb26)

lemma dune_lent_twice_fields:
  "books dune_lent_twice = map (\<lambda>b. (id_book b, b)) initial_books @ [(lit ''b4'', dune)]"
  "borrowed_records dune_lent_twice
     = [\<lparr>user_id = lit ''u1'', book_id = lit ''b4'', due_date = lit ''2024-03-04''\<rparr>,
        \<lparr>user_id = lit ''u1'', book_id = lit ''b4'', due_date = lit ''2024-03-05''\<rparr>]"
  "writable dune_lent_twice"
  by (simp_all add: dune_lent_twice_def borrow_book_def dune_lent_once_fields initial_books_def dune_def
      Let_def get_borrowed_count_def due_feb27)

lemma negative_store_fields:
  "books negative_store = map (\<lambda>b. (id_book b, b)) initial_books
     @ [(lit ''b4'', \<lparr>id_book = lit ''b4'', title = lit ''Dune'', author = lit ''Herbert'', copies = - 1\<rparr>)]"
  "borrowed_records negative_store = []" "writable negative_store"
  by (simp_all add: negative_store_def snd_add_book seeded_store_fields initial_books_def)

subsection \<open>Deleting a book\<close>

text \<open>
  Claim C3. When the id is not in the catalog or the book has a loan record,
  \<^verbatim>\<open>delete_book\<close> returns \<^verbatim>\<open>False\<close>, prints one line, and the catalog, the loan
  records and the data file are what they were. Otherwise it returns \<^verbatim>\<open>True\<close>, the
  catalog loses the entry of that id and nothing else (the other entries keep their
  order), the loan records are unchanged, and the new state is saved.
\<close>

theorem delete_book_spec:
  "(dict_get (books s) bid = None \<or> get_borrowed_count s bid > 0 \<longrightarrow>
      fst (delete_book s bid) = False
      \<and> (\<exists>m. snd (delete_book s bid) = print m s)
      \<and> books (snd (delete_book s bid)) = books s
      \<and> borrowed_records (snd (delete_book s bid)) = borrowed_records s
      \<and> data_file (snd (delete_book s bid)) = data_file s)
   \<and> (\<not> (dict_get (books s) bid = None \<or> get_borrowed_count s bid > 0) \<longrightarrow>
      fst (delete_book s bid) = True
      \<and> (\<exists>t. snd (delete_book s bid)
                = print (Removed t) (save_data (s\<lparr>books := dict_del bid (books s)\<rparr>)))
      \<and> books (snd (delete_book s bid)) = dict_del bid (books s)
      \<and> (distinct (dict_keys (books s)) \<longrightarrow>
            books (snd (delete_book s bid)) = filter (\<lambda>kv. fst kv \<noteq> bid) (books s))
      \<and> borrowed_records (snd (delete_book s bid)) = borrowed_records s
      \<and> (writable s \<longrightarrow>
            data_file (snd (delete_book s bid)) = Stored (data_to_save (snd (delete_book s bid)))))"
proof (intro conjI impI)
  assume "dict_get (books s) bid = None \<or> get_borrowed_count s bid > 0"
  then have *: "\<exists>m. delete_book s bid = (False, print m s)"
    by (auto simp: delete_book_def split: option.splits)
  then show "fst (delete_book s bid) = False" by auto
  from * show "\<exists>m. snd (delete_book s bid) = print m s" by auto
  from * show "books (snd (delete_book s bid)) = books s" by auto
  from * show "borrowed_records (snd (delete_book s bid)) = borrowed_records s" by auto
  from * show "data_file (snd (delete_book s bid)) = data_file s" by auto
next
  assume ok: "\<not> (dict_get (books s) bid = None \<or> get_borrowed_count s bid > 0)"
  then obtain b where b: "dict_get (books s) bid = Some b" by auto
  with ok have *: "delete_book s bid
      = (True, print (Removed (title b)) (save_data (s\<lparr>books := dict_del bid (books s)\<rparr>)))"
    by (simp add: delete_book_def)
  then show "fst (delete_book s bid) = True" by simp
  from * show "\<exists>t. snd (delete_book s bid)
                = print (Removed t) (save_data (s\<lparr>books := dict_del bid (books s)\<rparr>))" by auto
  from * show "books (snd (delete_book s bid)) = dict_del bid (books s)" by simp
  from * show "borrowed_records (snd (delete_book s bid)) = borrowed_records s" by simp
  {
    assume "distinct (dict_keys (books s))"
    with * show "books (snd (delete_book s bid)) = filter (\<lambda>kv. fst kv \<noteq> bid) (books s)"
      by (simp add: dict_del_filter)
  }
  {
    assume "writable s"
    with * show "data_file (snd (delete_book s bid)) = Stored (data_to_save (snd (delete_book s bid)))"
      by (simp add: data_file_save_data)
  }
qed

text \<open>
  Dune, of which a copy is lent, is not deleted; the second sample book, which nobody
  holds, is, and the three other books stay in their order.
\<close>

theorem delete_book_spec_witness:
  "get_borrowed_count dune_lent_once (lit ''b4'') > 0
   \<and> fst (delete_book dune_lent_once (lit ''b4'')) = False
   \<and> books (snd (delete_book dune_lent_once (lit ''b4''))) = books dune_lent_once
   \<and> data_file (snd (delete_book dune_lent_once (lit ''b4''))) = data_file dune_lent_once
   \<and> \<not> (dict_get (books dune_lent_once) (lit ''2'') = None \<or> get_borrowed_count dune_lent_once (lit ''2'') > 0)
   \<and> distinct (dict_keys (books dune_lent_once))
   \<and> writable dune_lent_once
   \<and> fst (delete_book dune_lent_once (lit ''2'')) = True
   \<and> dict_keys (books (snd (delete_book dune_lent_once (lit ''2'')))) = [lit ''1'', lit ''3'', lit ''b4'']
   \<and> borrowed_records (snd (delete_book dune_lent_once (lit ''2''))) = borrowed_records dune_lent_once
   \<and> data_file (snd (delete_book dune_lent_once (lit ''2'')))
       = Stored (data_to_save (snd (delete_book dune_lent_once (lit ''2''))))"
proof -
  have lent: "get_borrowed_count dune_lent_once (lit ''b4'') > 0"
    by (simp add: get_borrowed_count_def dune_lent_once_fields)
  have free: "\<not> (dict_get (books dune_lent_once) (lit ''2'') = None \<or> get_borrowed_count dune_lent_once (lit ''2'') > 0)"
    by (simp add: get_borrowed_count_def dune_lent_once_fields initial_books_def)
  have keys: "distinct (dict_keys (books dune_lent_once))"
    by (simp add: dune_lent_once_fields initial_books_def)
  have w: "writable dune_lent_once"
    by (rule dune_lent_once_fields)
  have rest: "dict_keys (filter (\<lambda>kv. fst kv \<noteq> (lit ''2'')) (books dune_lent_once)) = [lit ''1'', lit ''3'', lit ''b4'']"
    by (simp add: dune_lent_once_fields initial_books_def)
  from delete_book_spec [of dune_lent_once "lit ''b4''"] lent
  have no: "fst (delete_book dune_lent_once (lit ''b4'')) = False
      \<and> books (snd (delete_book dune_lent_once (lit ''b4''))) = books dune_lent_once
      \<and> data_file (snd (delete_book dune_lent_once (lit ''b4''))) = data_file dune_lent_once"
    by blast
  from delete_book_spec [of dune_lent_once "lit ''2''"] free keys w
  have yes: "fst (delete_book dune_lent_once (lit ''2'')) = True
      \<and> books (snd (delete_book dune_lent_once (lit ''2''))) = filter (\<lambda>kv. fst kv \<noteq> (lit ''2'')) (books dune_lent_once)
      \<and> borrowed_records (snd (delete_book dune_lent_once (lit ''2''))) = borrowed_records dune_lent_once
      \<and> data_file (snd (delete_book dune_lent_once (lit ''2'')))
          = Stored (data_to_save (snd (delete_book dune_lent_once (lit ''2''))))"
    by blast
  from yes rest have "dict_keys (books (snd (delete_book dune_lent_once (lit ''2'')))) = [lit ''1'', lit ''3'', lit ''b4'']"
    by (simp only:)
  with lent free keys w no yes show ?thesis
    by blast
qed

subsection \<open>Borrowing a book\<close>

text \<open>
  Claim C1, amended. Called with a user id (the call with \<^verbatim>\<open>None\<close> is claim C10),
  \<^verbatim>\<open>borrow_book\<close> fails exactly when the user holds three loans or more, or the
  book id is not in the catalog, or the available copies of the book are zero or
  fewer: it then prints one of three error lines, and no loan record is created and
  nothing is saved. In every other case it appends exactly one loan record, of this
  user and book and due seven days after today, leaves the catalog as it is, and saves;
  whether the user already holds this book plays no role.
\<close>

theorem borrow_book_spec:
  "(refused s bid u \<longrightarrow>
      (\<exists>m. borrow_book s bid (Some u) today = print m s
          \<and> (m = Err_limit \<or> m = Err_book_not_found bid \<or> (\<exists>t. m = Err_all_borrowed t))))
   \<and> (\<not> refused s bid u \<longrightarrow>
      borrowed_records (borrow_book s bid (Some u) today)
        = borrowed_records s
            @ [\<lparr>user_id = u, book_id = bid, due_date = strftime_ymd (plus_days today 7)\<rparr>]
      \<and> books (borrow_book s bid (Some u) today) = books s
      \<and> (\<exists>t. borrow_book s bid (Some u) today
            = print (Borrowed t (strftime_ymd (plus_days today 7)))
                (save_data (s\<lparr>borrowed_records := borrowed_records s
                   @ [\<lparr>user_id = u, book_id = bid, due_date = strftime_ymd (plus_days today 7)\<rparr>]\<rparr>)))
      \<and> (writable s \<longrightarrow>
            data_file (borrow_book s bid (Some u) today)
              = Stored (data_to_save (borrow_book s bid (Some u) today))))"
proof (intro conjI impI)
  assume "refused s bid u"
  then show "\<exists>m. borrow_book s bid (Some u) today = print m s
          \<and> (m = Err_limit \<or> m = Err_book_not_found bid \<or> (\<exists>t. m = Err_all_borrowed t))"
    by (auto simp: refused_def available_def user_loans_def borrow_book_def Let_def
        split: option.splits)
next
  assume ok: "\<not> refused s bid u"
  then obtain b where b: "dict_get (books s) bid = Some b"
    by (auto simp: refused_def available_def split: option.splits)
  let ?r = "\<lparr>user_id = u, book_id = bid, due_date = strftime_ymd (plus_days today 7)\<rparr>"
  from ok b have eq: "borrow_book s bid (Some u) today
      = print (Borrowed (title b) (strftime_ymd (plus_days today 7)))
          (save_data (s\<lparr>borrowed_records := borrowed_records s @ [?r]\<rparr>))"
    by (simp add: refused_def available_def user_loans_def borrow_book_def Let_def)
  then show "borrowed_records (borrow_book s bid (Some u) today) = borrowed_records s @ [?r]"
    by simp
  show "books (borrow_book s bid (Some u) today) = books s"
    by (rule books_borrow_book)
  from eq show "\<exists>t. borrow_book s bid (Some u) today
            = print (Borrowed t (strftime_ymd (plus_days today 7)))
                (save_data (s\<lparr>borrowed_records := borrowed_records s @ [?r]\<rparr>))"
    by blast
  {
    assume "writable s"
    with eq show "data_file (borrow_book s bid (Some u) today)
              = Stored (data_to_save (borrow_book s bid (Some u) today))"
      by (simp add: data_file_save_data)
  }
qed

text \<open>
  The claim as stated fails where fewer than zero copies are available. After
  \<^verbatim>\<open>add_book("Dune", "Herbert", -1)\<close> on the seeded store, user u1 holds no loan, the
  book is in the catalog and its availability is -1, not 0; yet no loan record is
  created.
\<close>

theorem borrow_book_negative_counterexample:
  "user_loans negative_store (lit ''u1'') < 3
   \<and> dict_has (books negative_store) (lit ''b4'')
   \<and> available negative_store (lit ''b4'') = Some (- 1)
   \<and> available negative_store (lit ''b4'') \<noteq> Some 0
   \<and> borrowed_records (borrow_book negative_store (lit ''b4'') (Some (lit ''u1'')) feb26)
       = borrowed_records negative_store"
  by (simp add: user_loans_def dict_has_def available_def get_borrowed_count_def borrow_book_def
      negative_store_fields initial_books_def Let_def)

text \<open>
  User u1, who holds one of the two copies of Dune, borrows the other one a day later;
  with both copies lent, a third loan is refused.
\<close>

theorem borrow_book_spec_witness:
  "\<not> refused dune_lent_once (lit ''b4'') (lit ''u1'')
   \<and> writable dune_lent_once
   \<and> borrowed_records (borrow_book dune_lent_once (lit ''b4'') (Some (lit ''u1'')) feb27)
       = [\<lparr>user_id = lit ''u1'', book_id = lit ''b4'', due_date = lit ''2024-03-04''\<rparr>,
          \<lparr>user_id = lit ''u1'', book_id = lit ''b4'', due_date = lit ''2024-03-05''\<rparr>]
   \<and> data_file (borrow_book dune_lent_once (lit ''b4'') (Some (lit ''u1'')) feb27)
       = Stored (data_to_save (borrow_book dune_lent_once (lit ''b4'') (Some (lit ''u1'')) feb27))
   \<and> refused dune_lent_twice (lit ''b4'') (lit ''u1'')
   \<and> borrowed_records (borrow_book dune_lent_twice (lit ''b4'') (Some (lit ''u1'')) feb27)
       = borrowed_records dune_lent_twice"
proof -
  have free: "\<not> refused dune_lent_once (lit ''b4'') (lit ''u1'')"
    by (simp add: refused_def available_def user_loans_def get_borrowed_count_def
        dune_lent_once_fields initial_books_def dune_def)
  have w: "writable dune_lent_once"
    by (rule dune_lent_once_fields)
  have full: "refused dune_lent_twice (lit ''b4'') (lit ''u1'')"
    by (simp add: refused_def available_def user_loans_def get_borrowed_count_def
        dune_lent_twice_fields initial_books_def dune_def)
  from borrow_book_spec [of dune_lent_once "lit ''b4''" "lit ''u1''" feb27] free w
  have lend: "borrowed_records (borrow_book dune_lent_once (lit ''b4'') (Some (lit ''u1'')) feb27)
        = borrowed_records dune_lent_once
            @ [\<lparr>user_id = lit ''u1'', book_id = lit ''b4'', due_date = strftime_ymd (plus_days feb27 7)\<rparr>]
      \<and> data_file (borrow_book dune_lent_once (lit ''b4'') (Some (lit ''u1'')) feb27)
          = Stored (data_to_save (borrow_book dune_lent_once (lit ''b4'') (Some (lit ''u1'')) feb27))"
    by blast
  from borrow_book_spec [of dune_lent_twice "lit ''b4''" "lit ''u1''" feb27] full
  obtain m where "borrow_book dune_lent_twice (lit ''b4'') (Some (lit ''u1'')) feb27 = print m dune_lent_twice"
    by blast
  then have same: "borrowed_records (borrow_book dune_lent_twice (lit ''b4'') (Some (lit ''u1'')) feb27)
       = borrowed_records dune_lent_twice"
    by simp
  from lend have "borrowed_records (borrow_book dune_lent_once (lit ''b4'') (Some (lit ''u1'')) feb27)
       = [\<lparr>user_id = lit ''u1'', book_id = lit ''b4'', due_date = lit ''2024-03-04''\<rparr>,
          \<lparr>user_id = lit ''u1'', book_id = lit ''b4'', due_date = lit ''2024-03-05''\<rparr>]"
    by (simp add: dune_lent_once_fields due_feb27)
  with free w lend full same show ?thesis
    by blast
qed

subsection \<open>Returning a book\<close>

text \<open>
  Claim C6. Called with a user id (the call with \<^verbatim>\<open>None\<close> is claim C10): when a
  loan record of this user and book exists, \<^verbatim>\<open>return_book\<close> removes the first such record and no other, leaves the
  catalog as it is and saves, so that the book has one borrowed copy fewer and one
  available copy more; when there is none, it prints the not-found line and the loan
  records, the catalog and the data file are what they were.
\<close>

theorem return_book_spec:
  "((\<exists>r\<in>set (borrowed_records s). user_id r = u \<and> book_id r = bid) \<longrightarrow>
      (\<exists>pre r post.
          borrowed_records s = pre @ r # post
          \<and> user_id r = u \<and> book_id r = bid
          \<and> (\<forall>x\<in>set pre. \<not> (user_id x = u \<and> book_id x = bid))
          \<and> borrowed_records (return_book s bid (Some u)) = pre @ post
          \<and> (\<exists>t. return_book s bid (Some u)
                 = print (Returned t) (save_data (s\<lparr>borrowed_records := pre @ post\<rparr>))))
      \<and> books (return_book s bid (Some u)) = books s
      \<and> get_borrowed_count (return_book s bid (Some u)) bid + 1 = get_borrowed_count s bid
      \<and> (\<forall>n. available s bid = Some n \<longrightarrow>
            available (return_book s bid (Some u)) bid = Some (n + 1))
      \<and> (writable s \<longrightarrow>
            data_file (return_book s bid (Some u))
              = Stored (data_to_save (return_book s bid (Some u)))))
   \<and> (\<not> (\<exists>r\<in>set (borrowed_records s). user_id r = u \<and> book_id r = bid) \<longrightarrow>
      return_book s bid (Some u) = print (Err_no_record bid) s)"
proof (intro conjI impI)
  let ?P = "\<lambda>r. user_id r = u \<and> book_id r = bid"
  assume "\<exists>r\<in>set (borrowed_records s). user_id r = u \<and> book_id r = bid"
  then have "find ?P (borrowed_records s) \<noteq> None"
    by (simp add: find_None_conv)
  then obtain r where r: "find ?P (borrowed_records s) = Some r" by auto
  from find_split [OF r] obtain pre post where
    sp: "borrowed_records s = pre @ r # post" "?P r" "\<forall>x\<in>set pre. \<not> ?P x"
        "remove1 r (borrowed_records s) = pre @ post"
    by blast
  define t where "t = (case dict_get (books s) bid of Some b \<Rightarrow> title b | None \<Rightarrow> lit ''Unknown Book'')"
  from r sp(4) have eq: "return_book s bid (Some u)
      = print (Returned t) (save_data (s\<lparr>borrowed_records := pre @ post\<rparr>))"
    by (simp add: return_book_def Let_def t_def)
  from sp eq show "\<exists>pre r post.
          borrowed_records s = pre @ r # post
          \<and> user_id r = u \<and> book_id r = bid
          \<and> (\<forall>x\<in>set pre. \<not> (user_id x = u \<and> book_id x = bid))
          \<and> borrowed_records (return_book s bid (Some u)) = pre @ post
          \<and> (\<exists>t. return_book s bid (Some u)
                 = print (Returned t) (save_data (s\<lparr>borrowed_records := pre @ post\<rparr>)))"
    by (intro exI [of _ pre] exI [of _ r] exI [of _ post]) auto
  show "books (return_book s bid (Some u)) = books s"
    by (rule books_return_book)
  from eq sp show cnt: "get_borrowed_count (return_book s bid (Some u)) bid + 1 = get_borrowed_count s bid"
    by (simp add: get_borrowed_count_def)
  then show "\<forall>n. available s bid = Some n \<longrightarrow>
            available (return_book s bid (Some u)) bid = Some (n + 1)"
    by (auto simp: available_def books_return_book split: option.splits)
  {
    assume "writable s"
    with eq show "data_file (return_book s bid (Some u))
              = Stored (data_to_save (return_book s bid (Some u)))"
      by (simp add: data_file_save_data)
  }
next
  assume "\<not> (\<exists>r\<in>set (borrowed_records s). user_id r = u \<and> book_id r = bid)"
  then have "find (\<lambda>r. user_id r = u \<and> book_id r = bid) (borrowed_records s) = None"
    by (simp add: find_None_conv)
  then show "return_book s bid (Some u) = print (Err_no_record bid) s"
    by (simp add: return_book_def)
qed

text \<open>
  User u1 holds both copies of Dune and returns one: the loan due on 4 March, the first
  of the two, is removed, and one copy is available again. User u2, who holds nothing,
  gets the not-found line.
\<close>

theorem return_book_spec_witness:
  "(\<exists>r\<in>set (borrowed_records dune_lent_twice). user_id r = lit ''u1'' \<and> book_id r = lit ''b4'')
   \<and> writable dune_lent_twice
   \<and> available dune_lent_twice (lit ''b4'') = Some 0
   \<and> available (return_book dune_lent_twice (lit ''b4'') (Some (lit ''u1''))) (lit ''b4'') = Some 1
   \<and> borrowed_records (return_book dune_lent_twice (lit ''b4'') (Some (lit ''u1'')))
       = [\<lparr>user_id = lit ''u1'', book_id = lit ''b4'', due_date = lit ''2024-03-05''\<rparr>]
   \<and> books (return_book dune_lent_twice (lit ''b4'') (Some (lit ''u1''))) = books dune_lent_twice
   \<and> data_file (return_book dune_lent_twice (lit ''b4'') (Some (lit ''u1'')))
       = Stored (data_to_save (return_book dune_lent_twice (lit ''b4'') (Some (lit ''u1''))))
   \<and> \<not> (\<exists>r\<in>set (borrowed_records dune_lent_twice). user_id r = lit ''u2'' \<and> book_id r = lit ''b4'')
   \<and> return_book dune_lent_twice (lit ''b4'') (Some (lit ''u2'')) = print (Err_no_record (lit ''b4'')) dune_lent_twice"
proof -
  have holds: "\<exists>r\<in>set (borrowed_records dune_lent_twice). user_id r = lit ''u1'' \<and> book_id r = lit ''b4''"
    by (simp add: dune_lent_twice_fields)
  have w: "writable dune_lent_twice"
    by (rule dune_lent_twice_fields)
  have none: "available dune_lent_twice (lit ''b4'') = Some 0"
    by (simp add: available_def get_borrowed_count_def dune_lent_twice_fields initial_books_def
        dune_def)
  have other: "\<not> (\<exists>r\<in>set (borrowed_records dune_lent_twice). user_id r = lit ''u2'' \<and> book_id r = lit ''b4'')"
    by (simp add: dune_lent_twice_fields)
  have left: "borrowed_records (return_book dune_lent_twice (lit ''b4'') (Some (lit ''u1'')))
       = [\<lparr>user_id = lit ''u1'', book_id = lit ''b4'', due_date = lit ''2024-03-05''\<rparr>]"
    by (simp add: return_book_def dune_lent_twice_fields Let_def)
  from return_book_spec [of dune_lent_twice "lit ''u1''" "lit ''b4''"] holds w none
  have ret: "available (return_book dune_lent_twice (lit ''b4'') (Some (lit ''u1''))) (lit ''b4'') = Some (0 + 1)
      \<and> books (return_book dune_lent_twice (lit ''b4'') (Some (lit ''u1''))) = books dune_lent_twice
      \<and> data_file (return_book dune_lent_twice (lit ''b4'') (Some (lit ''u1'')))
          = Stored (data_to_save (return_book dune_lent_twice (lit ''b4'') (Some (lit ''u1''))))"
    by blast
  from return_book_spec [of dune_lent_twice "lit ''u2''" "lit ''b4''"] other
  have nf: "return_book dune_lent_twice (lit ''b4'') (Some (lit ''u2'')) = print (Err_no_record (lit ''b4'')) dune_lent_twice"
    by blast
  from ret have "available (return_book dune_lent_twice (lit ''b4'') (Some (lit ''u1''))) (lit ''b4'') = Some 1"
    by simp
  with holds w none other left ret nf show ?thesis
    by blast
qed

subsection \<open>Searching the catalog\<close>

lemma startswith_take: "startswith s p \<longleftrightarrow> take (length p) s = p"
  by (induction s p rule: startswith.induct) auto

lemma str_in_drop:
  "str_in q s \<longleftrightarrow> (\<exists>i\<le>length s. take (length q) (drop i s) = q)"
proof (induction s)
  case Nil
  then show ?case by auto
next
  case (Cons c cs)
  have "(\<exists>i\<le>length (c # cs). take (length q) (drop i (c # cs)) = q)
      \<longleftrightarrow> take (length q) (c # cs) = q \<or> (\<exists>i\<le>length cs. take (length q) (drop i cs) = q)"
  proof
    assume "\<exists>i\<le>length (c # cs). take (length q) (drop i (c # cs)) = q"
    then obtain i where i: "i \<le> length (c # cs)" "take (length q) (drop i (c # cs)) = q"
      by blast
    show "take (length q) (c # cs) = q \<or> (\<exists>i\<le>length cs. take (length q) (drop i cs) = q)"
    proof (cases i)
      case 0
      with i show ?thesis by simp
    next
      case (Suc j)
      with i have "j \<le> length cs \<and> take (length q) (drop j cs) = q" by simp
      then show ?thesis by blast
    qed
  next
    assume "take (length q) (c # cs) = q \<or> (\<exists>i\<le>length cs. take (length q) (drop i cs) = q)"
    then show "\<exists>i\<le>length (c # cs). take (length q) (drop i (c # cs)) = q"
    proof
      assume "take (length q) (c # cs) = q"
      then have "0 \<le> length (c # cs) \<and> take (length q) (drop 0 (c # cs)) = q" by simp
      then show ?thesis by blast
    next
      assume "\<exists>i\<le>length cs. take (length q) (drop i cs) = q"
      then obtain i where "i \<le> length cs" "take (length q) (drop i cs) = q" by blast
      then have "Suc i \<le> length (c # cs) \<and> take (length q) (drop (Suc i) (c # cs)) = q"
        by simp
      then show ?thesis by blast
    qed
  qed
  with Cons show ?case by (simp add: startswith_take)
qed

lemma list_ex_upto: "list_ex P [0..<Suc n] \<longleftrightarrow> (\<exists>i\<le>n. P i)"
  unfolding list_ex_iff Bex_def set_upt atLeastLessThan_iff
  by (auto simp: less_Suc_eq_le)

lemma str_in_occurs_in: "str_in q t \<longleftrightarrow> occurs_in q t"
  by (simp only: str_in_drop occurs_in_def list_ex_upto)

lemma results_filter:
  "results lower s (lower query) bs =
     map (\<lambda>b. (b, copies b - borrowedCount s b))
       (filter (\<lambda>b. occurs_in (lower query) (lower (title b))
                    \<or> occurs_in (lower query) (lower (author b))) bs)"
  by (induction bs) (simp_all add: str_in_occurs_in borrowedCount_def get_borrowed_count_def)

lemma lower_same_letter:
  "(if capital a then a + 32 else a) = (if capital b then b + 32 else b) \<longleftrightarrow> same_letter a b"
  by (auto simp: same_letter_def capital_def small_letter_def)

lemma map_eq_map_rel: "map f u = map f q \<longleftrightarrow> list_all2 (\<lambda>a b. f a = f b) q u"
proof (induction q arbitrary: u)
  case Nil
  then show ?case by simp
next
  case (Cons a q)
  then show ?case by (cases u) auto
qed

lemma lower_latin1_eq:
  "lower_latin1 u = lower_latin1 q \<longleftrightarrow> list_all2 same_letter q u"
  by (simp only: lower_latin1_def map_eq_map_rel lower_same_letter)

lemma occurs_in_lower_latin1:
  "occurs_in (lower_latin1 q) (lower_latin1 t) \<longleftrightarrow> contains_ci q t"
proof -
  have "occurs_in (lower_latin1 q) (lower_latin1 t)
      \<longleftrightarrow> (\<exists>i\<le>length (lower_latin1 t).
             take (length (lower_latin1 q)) (drop i (lower_latin1 t)) = lower_latin1 q)"
    by (simp only: occurs_in_def list_ex_upto)
  also have "\<dots> \<longleftrightarrow> (\<exists>i\<le>length t. lower_latin1 (take (length q) (drop i t)) = lower_latin1 q)"
    by (simp add: lower_latin1_def take_map drop_map)
  also have "\<dots> \<longleftrightarrow> (\<exists>i\<le>length t. list_all2 same_letter q (take (length q) (drop i t)))"
    by (simp only: lower_latin1_eq)
  also have "\<dots> \<longleftrightarrow> contains_ci q t"
    by (simp only: contains_ci_def list_ex_upto)
  finally show ?thesis .
qed

lemma matching_orwell:
  "matching_books_ci seeded_store (lit ''ORwell'')
     = [(\<lparr>id_book = lit ''2'', title = lit ''1984'', author = lit ''George Orwell'', copies = 5\<rparr>, 5)]
   \<and> lower_latin1 (lit ''ORwell'') = lit ''orwell''
   \<and> latin1 (lit ''ORwell'')
   \<and> list_all (\<lambda>b. latin1 (title b) \<and> latin1 (author b)) (dict_values (books seeded_store))"
  by code_simp

lemma occurs_in_odysseia: "occurs_in odys odysseia"
  by code_simp

text \<open>
  Claim C7, amended. \<^verbatim>\<open>search_books\<close> returns nothing (\<^verbatim>\<open>None\<close>); it prints, under
  the lowered query, the list of exactly those books for which the query, lowered by
  \<^verbatim>\<open>str.lower\<close>, occurs in the lowered title or in the lowered author, each with its
  availability (copies minus borrowed count) and in the order of the catalog, or a
  no-match line when there is no such book. For a query and a catalog of code points
  below 256, where \<^verbatim>\<open>str.lower\<close> replaces the capital letters by their small letters,
  these are exactly the books whose title or author contains the query as a
  case-insensitive substring.
\<close>

theorem search_books_prints_matches:
  "search_books lower s query =
     (None,
      print (if matching_books lower s query = [] then Info_no_match (lower query)
             else Search_results (lower query) (map table_row (matching_books lower s query))) s)
   \<and> ((\<forall>x. latin1 x \<longrightarrow> lower x = lower_latin1 x)
        \<and> latin1 query
        \<and> list_all (\<lambda>b. latin1 (title b) \<and> latin1 (author b)) (dict_values (books s))
       \<longrightarrow> matching_books lower s query = matching_books_ci s query)"
proof (intro conjI impI)
  show "search_books lower s query =
     (None,
      print (if matching_books lower s query = [] then Info_no_match (lower query)
             else Search_results (lower query) (map table_row (matching_books lower s query))) s)"
    by (simp add: search_books_def Let_def results_filter matching_books_def)
next
  assume h: "(\<forall>x. latin1 x \<longrightarrow> lower x = lower_latin1 x)
        \<and> latin1 query
        \<and> list_all (\<lambda>b. latin1 (title b) \<and> latin1 (author b)) (dict_values (books s))"
  then have q: "lower query = lower_latin1 query" by simp
  have "filter (\<lambda>b. occurs_in (lower query) (lower (title b))
                    \<or> occurs_in (lower query) (lower (author b))) (dict_values (books s))
      = filter (\<lambda>b. contains_ci query (title b) \<or> contains_ci query (author b))
          (dict_values (books s))"
  proof (rule filter_cong [OF refl])
    fix b assume "b \<in> set (dict_values (books s))"
    with h have "lower (title b) = lower_latin1 (title b)"
      and "lower (author b) = lower_latin1 (author b)"
      by (auto simp: list_all_iff)
    with q show "(occurs_in (lower query) (lower (title b))
                    \<or> occurs_in (lower query) (lower (author b)))
        = (contains_ci query (title b) \<or> contains_ci query (author b))"
      by (simp add: occurs_in_lower_latin1)
  qed
  then show "matching_books lower s query = matching_books_ci s query"
    by (simp add: matching_books_def matching_books_ci_def)
qed

text \<open>
  The claim as stated fails twice. On the seeded store, the search for ORwell has one
  match, the book 1984, but what the method returns is \<^verbatim>\<open>None\<close>, not the list of
  matches. And the match is not case-insensitive in every script: the Greek title of
  the example begins with the four letters of the query, yet the search prints the
  no-match line, because the sigma at the end of the query is lowered to the final
  sigma and the sigma inside the title is not.
\<close>

theorem search_books_returns_counterexample:
  "matching_books_ci seeded_store (lit ''ORwell'')
     = [(\<lparr>id_book = lit ''2'', title = lit ''1984'', author = lit ''George Orwell'', copies = 5\<rparr>, 5)]
   \<and> fst (search_books lower_latin1 seeded_store (lit ''ORwell'')) = None
   \<and> fst (search_books lower_latin1 seeded_store (lit ''ORwell''))
       \<noteq> Some (matching_books_ci seeded_store (lit ''ORwell''))
   \<and> occurs_in odys odysseia
   \<and> search_books lower_greek_example greek_store odys
       = (None, print (Info_no_match [959, 948, 965, 962]) greek_store)"
proof -
  have none: "fst (search_books lower_latin1 seeded_store (lit ''ORwell'')) = None"
    by (simp add: search_books_def Let_def)
  have greek: "search_books lower_greek_example greek_store odys
       = (None, print (Info_no_match [959, 948, 965, 962]) greek_store)"
    by (simp add: search_books_def Let_def greek_store_def dict_values_def
        lower_greek_example_def odys_def odysseia_def lit_def)
  from matching_orwell none occurs_in_odysseia greek show ?thesis
    by simp
qed

text \<open>The search for ORwell on the seeded store prints the one row of the book 1984.\<close>

theorem search_books_prints_matches_witness:
  "latin1 (lit ''ORwell'')
   \<and> list_all (\<lambda>b. latin1 (title b) \<and> latin1 (author b)) (dict_values (books seeded_store))
   \<and> matching_books lower_latin1 seeded_store (lit ''ORwell'')
       = matching_books_ci seeded_store (lit ''ORwell'')
   \<and> search_books lower_latin1 seeded_store (lit ''ORwell'')
       = (None,
          print (Search_results (lit ''orwell'')
                   [(lit ''2'', lit ''1984'', lit ''George Orwell'', 5)]) seeded_store)"
proof -
  from search_books_prints_matches [of lower_latin1 seeded_store "lit ''ORwell''"] matching_orwell
  have m: "matching_books lower_latin1 seeded_store (lit ''ORwell'')
       = matching_books_ci seeded_store (lit ''ORwell'')"
    by blast
  from search_books_prints_matches [of lower_latin1 seeded_store "lit ''ORwell''"]
  have "search_books lower_latin1 seeded_store (lit ''ORwell'')
     = (None,
        print (if matching_books lower_latin1 seeded_store (lit ''ORwell'') = []
               then Info_no_match (lower_latin1 (lit ''ORwell''))
               else Search_results (lower_latin1 (lit ''ORwell''))
                      (map table_row (matching_books lower_latin1 seeded_store (lit ''ORwell''))))
          seeded_store)"
    by blast
  with m matching_orwell show ?thesis
    by (simp add: table_row_def)
qed

subsection \<open>Adding a book\<close>

lemma read_copies_rejected:
  "list_all rejected pre \<Longrightarrow>
   read_copies (pre @ rest) s
     = read_copies rest (s\<lparr>console := console s @ replicate (length pre) Err_positive_number\<rparr>)"
proof (induction pre arbitrary: s)
  case Nil
  then show ?case by simp
next
  case (Cons x pre)
  then have step: "read_copies ((x # pre) @ rest) s
      = read_copies (pre @ rest) (print Err_positive_number s)"
    by (cases x) (auto simp: rejected_def)
  from Cons have "list_all rejected pre" by simp
  from Cons.IH [OF this, of "print Err_positive_number s"] step
  show ?case
    by (simp add: print_def replicate_app_Cons_same)
qed

text \<open>
  Claim C9, amended. \<^verbatim>\<open>add_book\<close> performs no validation: whatever the copy count, it
  stores the new book and saves. The check is in \<^verbatim>\<open>staff_add_book_menu\<close>: an answer
  that is not a number, or is zero or negative, is reported and changes nothing but the
  console, and the menu asks again instead of giving up; \<^verbatim>\<open>add_book\<close> is called with
  the first positive answer, and if the answers end before one is positive,
  \<^verbatim>\<open>EOFError\<close> leaves the menu with the catalog, the loan records and the data file
  unchanged.
\<close>

theorem staff_add_book_menu_spec:
  "snd (add_book s t a c new_id)
     = save_data (s\<lparr>books := dict_set new_id
                      \<lparr>id_book = new_id, title = t, author = a, copies = c\<rparr> (books s)\<rparr>)
   \<and> (list_all rejected answers \<longrightarrow>
        staff_add_book_menu s t a answers new_id
          = (Some EOFError,
             s\<lparr>console := console s @ replicate (length answers) Err_positive_number\<rparr>))
   \<and> (list_all rejected pre \<and> 0 < n \<longrightarrow>
        staff_add_book_menu s t a (pre @ Some n # post) new_id
          = (None,
             print (Added t a)
               (snd (add_book (s\<lparr>console := console s @ replicate (length pre) Err_positive_number\<rparr>)
                       t a n new_id))))"
proof (intro conjI impI)
  show "snd (add_book s t a c new_id)
     = save_data (s\<lparr>books := dict_set new_id
                      \<lparr>id_book = new_id, title = t, author = a, copies = c\<rparr> (books s)\<rparr>)"
    by (rule snd_add_book)
next
  assume "list_all rejected answers"
  from read_copies_rejected [OF this, of "[]" s]
  show "staff_add_book_menu s t a answers new_id
          = (Some EOFError,
             s\<lparr>console := console s @ replicate (length answers) Err_positive_number\<rparr>)"
    by (simp add: staff_add_book_menu_def)
next
  assume "list_all rejected pre \<and> 0 < n"
  then have pre: "list_all rejected pre" and n: "0 < n" by auto
  from read_copies_rejected [OF pre, of "Some n # post" s] n
  show "staff_add_book_menu s t a (pre @ Some n # post) new_id
          = (None,
             print (Added t a)
               (snd (add_book (s\<lparr>console := console s @ replicate (length pre) Err_positive_number\<rparr>)
                       t a n new_id)))"
    by (simp add: staff_add_book_menu_def)
qed

text \<open>
  The claim as stated fails for \<^verbatim>\<open>add_book\<close> itself: called on the seeded store with
  0 copies, and with -1 copies, it puts the book into the catalog and writes the data
  file.
\<close>

theorem add_book_unvalidated_counterexample:
  "dict_get (books seeded_store) (lit ''b4'') = None
   \<and> data_file seeded_store = Absent
   \<and> dict_get (books (snd (add_book seeded_store (lit ''Dune'') (lit ''Herbert'') 0 (lit ''b4'')))) (lit ''b4'')
       = Some \<lparr>id_book = lit ''b4'', title = lit ''Dune'', author = lit ''Herbert'', copies = 0\<rparr>
   \<and> data_file (snd (add_book seeded_store (lit ''Dune'') (lit ''Herbert'') 0 (lit ''b4''))) \<noteq> Absent
   \<and> dict_get (books (snd (add_book seeded_store (lit ''Dune'') (lit ''Herbert'') (- 1) (lit ''b4'')))) (lit ''b4'')
       = Some \<lparr>id_book = lit ''b4'', title = lit ''Dune'', author = lit ''Herbert'', copies = - 1\<rparr>
   \<and> data_file (snd (add_book seeded_store (lit ''Dune'') (lit ''Herbert'') (- 1) (lit ''b4''))) \<noteq> Absent"
  by (simp add: snd_add_book seeded_store_fields initial_books_def data_file_save_data)

text \<open>
  The staff menu is given the answers x, 0, -2, 4 and 7: three error lines are printed
  and Dune is added with 4 copies. Given the answers x and 0 only, it prints two error
  lines and ends with \<^verbatim>\<open>EOFError\<close>.
\<close>

theorem staff_add_book_menu_spec_witness:
  "list_all rejected [None, Some 0, Some (- 2)]
   \<and> (0::int) < 4
   \<and> staff_add_book_menu seeded_store (lit ''Dune'') (lit ''Herbert'')
        [None, Some 0, Some (- 2), Some 4, Some 7] (lit ''b4'')
       = (None,
          print (Added (lit ''Dune'') (lit ''Herbert''))
            (snd (add_book
               (seeded_store\<lparr>console :=
                  [Info_no_file, Err_positive_number, Err_positive_number, Err_positive_number]\<rparr>)
               (lit ''Dune'') (lit ''Herbert'') 4 (lit ''b4''))))
   \<and> list_all rejected [None, Some 0]
   \<and> staff_add_book_menu seeded_store (lit ''Dune'') (lit ''Herbert'') [None, Some 0] (lit ''b4'')
       = (Some EOFError,
          seeded_store\<lparr>console := [Info_no_file, Err_positive_number, Err_positive_number]\<rparr>)"
proof -
  have r3: "list_all rejected [None, Some 0, Some (- 2)]"
    by (simp add: rejected_def)
  have r2: "list_all rejected [None, Some 0]"
    by (simp add: rejected_def)
  have c: "console seeded_store = [Info_no_file]"
    by (simp add: seeded_store_def)
  from staff_add_book_menu_spec
    [of seeded_store "lit ''Dune''" "lit ''Herbert''" 4 "lit ''b4''" "[None, Some 0]"
        "[None, Some 0, Some (- 2)]" 4 "[Some 7]"] r3 r2
  have "staff_add_book_menu seeded_store (lit ''Dune'') (lit ''Herbert'')
          ([None, Some 0, Some (- 2)] @ Some 4 # [Some 7]) (lit ''b4'')
       = (None,
          print (Added (lit ''Dune'') (lit ''Herbert''))
            (snd (add_book
               (seeded_store\<lparr>console := console seeded_store
                  @ replicate (length [None, Some 0, Some (- 2 :: int)]) Err_positive_number\<rparr>)
               (lit ''Dune'') (lit ''Herbert'') 4 (lit ''b4''))))
     \<and> staff_add_book_menu seeded_store (lit ''Dune'') (lit ''Herbert'') [None, Some 0] (lit ''b4'')
       = (Some EOFError,
          seeded_store\<lparr>console := console seeded_store
            @ replicate (length [None, Some (0 :: int)]) Err_positive_number\<rparr>)"
    by simp
  with r3 r2 c show ?thesis
    by (simp add: numeral_eq_Suc)
qed

subsection \<open>Evaluating the example sequences\<close>

lemma seeded_store_new: "new_manager Absent True [] = Inr seeded_store"
  by (simp add: new_manager_Absent seeded_store_def)

lemma four_loans_fields:
  "borrowed_records (run lower four_loans seeded_store)
     = [\<lparr>user_id = lit ''u1'', book_id = lit ''2'', due_date = lit ''2024-03-04''\<rparr>,
        \<lparr>user_id = lit ''u1'', book_id = lit ''2'', due_date = lit ''2024-03-04''\<rparr>,
        \<lparr>user_id = lit ''u1'', book_id = lit ''2'', due_date = lit ''2024-03-05''\<rparr>]"
  by (simp add: four_loans_def borrow_book_def Let_def get_borrowed_count_def
      seeded_store_fields initial_books_def due_feb26 due_feb27)

lemma parse_mar5: "fromisoformat (lit ''2024-03-05'') = Some \<lparr>year = 2024, month = 3, day = 5\<rparr>"
  by code_simp

lemma busy_week_fields:
  "books (run lower busy_week seeded_store)
     = [(lit ''1'', \<lparr>id_book = lit ''1'', title = lit ''The Great Gatsby'',
                 author = lit ''F. Scott Fitzgerald'', copies = 3\<rparr>),
        (lit ''3'', \<lparr>id_book = lit ''3'', title = lit ''Moby Dick'', author = lit ''Herman Melville'', copies = 1\<rparr>),
        (lit ''b4'', dune)]"
  "borrowed_records (run lower busy_week seeded_store)
     = [\<lparr>user_id = lit ''u1'', book_id = lit ''b4'', due_date = lit ''2024-03-05''\<rparr>]"
  "ops_ok lower seeded_store busy_week"
  by (simp_all add: busy_week_def snd_add_book borrow_book_def return_book_def delete_book_def
      search_books_def generate_simple_report_def parse_mar5
      Let_def get_borrowed_count_def dict_has_def
      seeded_store_fields initial_books_def due_feb26 due_feb27 dune_def)

subsection \<open>The cap of three loans\<close>

lemma user_loans_borrow:
  "user_loans s u \<le> 3 \<Longrightarrow> user_loans (borrow_book s bid uid today) u \<le> 3"
  by (cases uid)
     (auto simp: borrow_book_def user_loans_def Let_def split: option.splits)

lemma user_loans_return:
  "user_loans (return_book s bid uid) u \<le> user_loans s u"
  by (cases uid)
     (auto simp: return_book_def user_loans_def Let_def length_filter_remove1 split: option.splits)

lemma exec_op_user_loans:
  "exec_op lower x s = Inr s' \<Longrightarrow> user_loans s u \<le> 3 \<Longrightarrow> user_loans s' u \<le> 3"
proof (cases x)
  case (AddBook t a c new_id)
  assume "exec_op lower x s = Inr s'" "user_loans s u \<le> 3"
  with AddBook show ?thesis by (auto simp: snd_add_book user_loans_def)
next
  case (DeleteBook bid)
  assume "exec_op lower x s = Inr s'" "user_loans s u \<le> 3"
  with DeleteBook show ?thesis
    by (auto simp: delete_book_def user_loans_def split: option.splits if_splits)
next
  case (BorrowBook bid uid today)
  assume "exec_op lower x s = Inr s'" "user_loans s u \<le> 3"
  with BorrowBook show ?thesis using user_loans_borrow by auto
next
  case (ReturnBook bid uid)
  assume "exec_op lower x s = Inr s'" "user_loans s u \<le> 3"
  with ReturnBook user_loans_return [of s bid uid u] show ?thesis by auto
next
  case (SearchBooks q)
  assume "exec_op lower x s = Inr s'" "user_loans s u \<le> 3"
  with SearchBooks show ?thesis by (auto simp: search_books_def user_loans_def Let_def)
next
  case (GenerateReport today)
  assume "exec_op lower x s = Inr s'" "user_loans s u \<le> 3"
  with GenerateReport generate_simple_report_records [of s today s'] show ?thesis
    by (auto simp: user_loans_def)
qed

lemma run_user_loans: "user_loans s u \<le> 3 \<Longrightarrow> user_loans (run lower ops s) u \<le> 3"
proof (induction ops arbitrary: s)
  case Nil
  then show ?case by simp
next
  case (Cons x ops)
  show ?case
  proof (cases "exec_op lower x s")
    case (Inl e)
    with Cons.prems show ?thesis by simp
  next
    case (Inr s')
    from this Cons.prems have "user_loans s' u \<le> 3" by (rule exec_op_user_loans)
    with Cons.IH Inr show ?thesis by simp
  qed
qed

text \<open>
  Claim C5. After any sequence of operations on the manager created without a data
  file, no user id has more than three loan records.
\<close>

theorem user_never_holds_more_than_three:
  "new_manager Absent w out = Inr s0 \<Longrightarrow> user_loans (run lower ops s0) u \<le> 3"
proof -
  assume "new_manager Absent w out = Inr s0"
  then have "borrowed_records s0 = []" by (auto simp: new_manager_Absent)
  then have "user_loans s0 u \<le> 3" by (simp add: user_loans_def)
  then show ?thesis by (rule run_user_loans)
qed

text \<open>Of four attempts of user u1 to borrow the second sample book, three succeed.\<close>

theorem user_never_holds_more_than_three_witness:
  "new_manager Absent True [] = Inr seeded_store
   \<and> user_loans (run lower_latin1 four_loans seeded_store) (lit ''u1'') = 3
   \<and> user_loans (run lower_latin1 four_loans seeded_store) (lit ''u1'') \<le> 3"
proof -
  have "user_loans (run lower_latin1 four_loans seeded_store) (lit ''u1'') = 3"
    by (simp add: user_loans_def four_loans_fields)
  with seeded_store_new
    user_never_holds_more_than_three [of True "[]" seeded_store lower_latin1 four_loans "lit ''u1''"]
  show ?thesis by blast
qed

subsection \<open>The catalog stays a well-formed dict\<close>

lemma wf_store_dict_set:
  assumes "wf_store s"
  shows "wf_store (s\<lparr>books := dict_set (id_book b) b (books s)\<rparr>)"
proof -
  from assms have "distinct (dict_keys (dict_set (id_book b) b (books s)))"
    by (simp add: wf_store_def distinct_dict_set)
  moreover have "list_all (\<lambda>kb. id_book (snd kb) = fst kb) (dict_set (id_book b) b (books s))"
    using assms set_dict_set_subset [of "id_book b" b "books s"]
    by (auto simp: wf_store_def list_all_iff)
  ultimately show ?thesis by (simp add: wf_store_def)
qed

lemma wf_store_dict_del:
  assumes "wf_store s"
  shows "wf_store (s\<lparr>books := dict_del k (books s)\<rparr>)"
proof -
  from assms have eq: "dict_del k (books s) = filter (\<lambda>kv. fst kv \<noteq> k) (books s)"
    by (simp add: wf_store_def dict_del_filter)
  from assms have "distinct (map fst (filter (\<lambda>kv. fst kv \<noteq> k) (books s)))"
    by (simp add: wf_store_def dict_keys_def distinct_map_filter)
  moreover from assms
  have "list_all (\<lambda>kb. id_book (snd kb) = fst kb) (filter (\<lambda>kv. fst kv \<noteq> k) (books s))"
    by (simp add: wf_store_def list_all_iff)
  ultimately show ?thesis
    by (simp add: wf_store_def eq dict_keys_def)
qed

lemma wf_store_same_books: "books s' = books s \<Longrightarrow> wf_store s \<Longrightarrow> wf_store s'"
  by (simp add: wf_store_def)

lemma wf_store_exec_op:
  assumes "exec_op lower x s = Inr s'" and "wf_store s"
  shows "wf_store s'"
proof (cases x)
  case (AddBook t a c new_id)
  with assms wf_store_dict_set [of s "\<lparr>id_book = new_id, title = t, author = a, copies = c\<rparr>"]
  show ?thesis by (auto simp: snd_add_book wf_store_def)
next
  case (DeleteBook bid)
  have "books (snd (delete_book s bid)) = books s
      \<or> books (snd (delete_book s bid)) = dict_del bid (books s)"
    by (simp add: delete_book_def split: option.splits)
  with DeleteBook assms wf_store_dict_del [of s bid] show ?thesis
    by (auto simp: wf_store_def)
next
  case (BorrowBook bid uid today)
  with assms books_borrow_book [of s bid uid today] have "books s' = books s"
    by auto
  with assms show ?thesis by (auto intro: wf_store_same_books)
next
  case (ReturnBook bid uid)
  with assms books_return_book [of s bid uid] have "books s' = books s"
    by auto
  with assms show ?thesis by (auto intro: wf_store_same_books)
next
  case (SearchBooks q)
  with assms books_search_books [of lower s q] have "books s' = books s" by auto
  with assms show ?thesis by (auto intro: wf_store_same_books)
next
  case (GenerateReport today)
  with assms generate_simple_report_records [of s today s'] have "books s' = books s" by simp
  with assms show ?thesis by (auto intro: wf_store_same_books)
qed

lemma wf_store_run: "wf_store s \<Longrightarrow> wf_store (run lower ops s)"
proof (induction ops arbitrary: s)
  case Nil
  then show ?case by simp
next
  case (Cons x ops)
  show ?case
  proof (cases "exec_op lower x s")
    case (Inl e)
    with Cons.prems show ?thesis by simp
  next
    case (Inr s')
    from Inr Cons.prems have "wf_store s'" by (rule wf_store_exec_op)
    from Cons.IH [OF this] Inr show ?thesis by simp
  qed
qed

subsection \<open>Loan records never exceed the copies\<close>

lemma loans_ok_same:
  "books s' = books s \<Longrightarrow> borrowed_records s' = borrowed_records s \<Longrightarrow> loans_ok s \<Longrightarrow> loans_ok s'"
  by (simp add: loans_ok_def get_borrowed_count_def)

lemma loans_ok_add_book:
  assumes ok: "loans_ok s" and c: "0 \<le> c" and fresh: "\<not> dict_has (books s) new_id"
  shows "loans_ok (snd (add_book s t a c new_id))"
proof -
  let ?nb = "\<lparr>id_book = new_id, title = t, author = a, copies = c\<rparr>"
  from fresh have bs: "dict_set new_id ?nb (books s) = books s @ [(new_id, ?nb)]"
    by (simp add: dict_set_fresh dict_has_keys)
  from ok fresh have "\<forall>r\<in>set (borrowed_records s). book_id r \<noteq> new_id"
    by (auto simp: loans_ok_def list_all_iff)
  then have "filter (\<lambda>r. book_id r = new_id) (borrowed_records s) = []"
    by (simp add: filter_empty_conv)
  then have zero: "get_borrowed_count s new_id = 0"
    by (simp add: get_borrowed_count_def)
  have "list_all (\<lambda>kb. get_borrowed_count s (fst kb) \<le> copies (snd kb)) (books s @ [(new_id, ?nb)])"
    using ok zero c by (simp add: loans_ok_def)
  moreover have "list_all (\<lambda>r. dict_has (books s @ [(new_id, ?nb)]) (book_id r)) (borrowed_records s)"
    using ok by (auto simp: loans_ok_def list_all_iff dict_has_keys dict_keys_def)
  ultimately show ?thesis
    by (simp add: snd_add_book bs loans_ok_def get_borrowed_count_def)
qed

lemma loans_ok_delete_book:
  assumes ok: "loans_ok s"
  shows "loans_ok (snd (delete_book s bid))"
proof (cases "dict_get (books s) bid \<noteq> None \<and> \<not> get_borrowed_count s bid > 0")
  case False
  then have "\<exists>m. snd (delete_book s bid) = print m s"
    by (auto simp: delete_book_def split: option.splits)
  with ok show ?thesis by (auto intro: loans_ok_same)
next
  case True
  then obtain b where "dict_get (books s) bid = Some b" by auto
  with True have eq: "snd (delete_book s bid)
      = print (Removed (title b)) (save_data (s\<lparr>books := dict_del bid (books s)\<rparr>))"
    by (simp add: delete_book_def)
  from True have "length (filter (\<lambda>r. book_id r = bid) (borrowed_records s)) = 0"
    by (simp add: get_borrowed_count_def)
  then have none: "\<forall>r\<in>set (borrowed_records s). book_id r \<noteq> bid"
    by (simp add: filter_empty_conv)
  have "list_all (\<lambda>kb. get_borrowed_count s (fst kb) \<le> copies (snd kb)) (dict_del bid (books s))"
    using ok set_dict_del_subset [of bid "books s"] by (auto simp: loans_ok_def list_all_iff)
  moreover have "list_all (\<lambda>r. dict_has (dict_del bid (books s)) (book_id r)) (borrowed_records s)"
    using ok none by (auto simp: loans_ok_def list_all_iff dict_has_def dict_get_dict_del_other)
  ultimately show ?thesis
    by (simp add: eq loans_ok_def get_borrowed_count_def)
qed

lemma loans_ok_borrow_book:
  assumes wf: "wf_store s" and ok: "loans_ok s"
  shows "loans_ok (borrow_book s bid uid today)"
proof -
  from borrow_book_cases [of uid s bid today]
  consider (lend) u b where "dict_get (books s) bid = Some b"
      "get_borrowed_count s bid < copies b"
      "borrow_book s bid uid today
         = print (Borrowed (title b) (strftime_ymd (plus_days today 7)))
             (save_data (s\<lparr>borrowed_records := borrowed_records s
                @ [\<lparr>user_id = u, book_id = bid, due_date = strftime_ymd (plus_days today 7)\<rparr>]\<rparr>))"
    | (same) "borrow_book s bid uid today = s"
    | (msg) m where "borrow_book s bid uid today = print m s"
    by blast
  then show ?thesis
  proof cases
    case lend
    have "list_all (\<lambda>kb. get_borrowed_count (borrow_book s bid uid today) (fst kb) \<le> copies (snd kb))
            (books s)"
      unfolding list_all_iff
    proof
      fix kb assume kb: "kb \<in> set (books s)"
      obtain k b' where p: "kb = (k, b')" by (cases kb)
      from ok kb p have old: "get_borrowed_count s k \<le> copies b'"
        by (auto simp: loans_ok_def list_all_iff)
      show "get_borrowed_count (borrow_book s bid uid today) (fst kb) \<le> copies (snd kb)"
      proof (cases "k = bid")
        case True
        with wf kb p have "dict_get (books s) bid = Some b'"
          by (simp add: wf_store_def in_set_dict_get)
        with lend have "b' = b" by simp
        with lend True p show ?thesis by (simp add: get_borrowed_count_def)
      next
        case False
        with old lend p show ?thesis by (simp add: get_borrowed_count_def)
      qed
    qed
    moreover from lend have "dict_has (books s) bid" by (simp add: dict_has_def)
    with ok lend have "list_all (\<lambda>r. dict_has (books s) (book_id r))
        (borrowed_records (borrow_book s bid uid today))"
      by (simp add: loans_ok_def)
    ultimately show ?thesis by (simp add: loans_ok_def books_borrow_book)
  next
    case same
    with ok show ?thesis by simp
  next
    case msg
    with ok show ?thesis by (auto intro: loans_ok_same)
  qed
qed

lemma loans_ok_return_book:
  assumes ok: "loans_ok s"
  shows "loans_ok (return_book s bid uid)"
proof -
  from return_book_cases [of s bid uid]
  consider (handed_in) r t where
      "return_book s bid uid
         = print (Returned t) (save_data (s\<lparr>borrowed_records := remove1 r (borrowed_records s)\<rparr>))"
    | (same) "return_book s bid uid = s"
    | (msg) m where "return_book s bid uid = print m s"
    by blast
  then show ?thesis
  proof cases
    case handed_in
    have le: "get_borrowed_count (return_book s bid uid) k \<le> get_borrowed_count s k" for k
      by (simp add: handed_in get_borrowed_count_def length_filter_remove1)
    have "list_all (\<lambda>kb. get_borrowed_count (return_book s bid uid) (fst kb) \<le> copies (snd kb))
            (books s)"
      unfolding list_all_iff
    proof
      fix kb assume "kb \<in> set (books s)"
      with ok have "get_borrowed_count s (fst kb) \<le> copies (snd kb)"
        by (simp add: loans_ok_def list_all_iff)
      with le [of "fst kb"] show "get_borrowed_count (return_book s bid uid) (fst kb) \<le> copies (snd kb)"
        by simp
    qed
    moreover have "list_all (\<lambda>r. dict_has (books s) (book_id r))
        (borrowed_records (return_book s bid uid))"
      using ok set_remove1_subset [of r "borrowed_records s"]
      by (auto simp: handed_in loans_ok_def list_all_iff)
    ultimately show ?thesis by (simp add: loans_ok_def books_return_book)
  next
    case same
    with ok show ?thesis by simp
  next
    case msg
    with ok show ?thesis by (auto intro: loans_ok_same)
  qed
qed

lemma loans_ok_exec_op:
  assumes "exec_op lower x s = Inr s'" and "op_ok s x" and "wf_store s" and "loans_ok s"
  shows "loans_ok s'"
proof (cases x)
  case (AddBook t a c new_id)
  with assms loans_ok_add_book [of s c new_id t a] show ?thesis by auto
next
  case (DeleteBook bid)
  with assms loans_ok_delete_book [of s bid] show ?thesis by auto
next
  case (BorrowBook bid uid today)
  with assms loans_ok_borrow_book [of s bid uid today] show ?thesis by auto
next
  case (ReturnBook bid uid)
  with assms loans_ok_return_book [of s bid uid] show ?thesis by auto
next
  case (SearchBooks q)
  with assms have "books s' = books s \<and> borrowed_records s' = borrowed_records s"
    by (auto simp: search_books_def Let_def)
  with assms show ?thesis by (auto intro: loans_ok_same)
next
  case (GenerateReport today)
  with assms generate_simple_report_records [of s today s']
  have "books s' = books s \<and> borrowed_records s' = borrowed_records s" by simp
  with assms show ?thesis by (auto intro: loans_ok_same)
qed

lemma run_invariant:
  "ops_ok lower s ops \<Longrightarrow> wf_store s \<Longrightarrow> loans_ok s \<Longrightarrow>
   wf_store (run lower ops s) \<and> loans_ok (run lower ops s)"
proof (induction ops arbitrary: s)
  case Nil
  then show ?case by simp
next
  case (Cons x ops)
  show ?case
  proof (cases "exec_op lower x s")
    case (Inl e)
    with Cons.prems show ?thesis by simp
  next
    case (Inr s')
    from Cons.prems have okx: "op_ok s x" by simp
    from Inr Cons.prems have rest: "ops_ok lower s' ops" by simp
    from Inr Cons.prems(2) have wf': "wf_store s'" by (rule wf_store_exec_op)
    from Inr okx Cons.prems(2,3) have lo': "loans_ok s'" by (rule loans_ok_exec_op)
    from Cons.IH [OF rest wf' lo'] Inr show ?thesis by simp
  qed
qed

lemma seeded_invariant:
  assumes "new_manager Absent w out = Inr s0"
  shows "wf_store s0 \<and> loans_ok s0"
proof -
  from assms have s0: "s0 = \<lparr>books = map (\<lambda>b. (id_book b, b)) initial_books, borrowed_records = [],
          data_file = Absent, writable = w, console = out @ [Info_no_file]\<rparr>"
    by (simp add: new_manager_Absent)
  show ?thesis
    by (simp add: s0 wf_store_def loans_ok_def initial_books_def get_borrowed_count_def)
qed

text \<open>
  Claim C2, amended. Start from the manager created without a data file and run any
  sequence of operations in which every \<^verbatim>\<open>add_book\<close> is called with a copy count that
  is not negative and generates an id that is not yet in the catalog. Then every book
  of the catalog has a borrowed count, the number of loan records with its id, between
  0 and its copies.
\<close>

theorem borrowed_count_within_copies:
  assumes "new_manager Absent w out = Inr s0"
    and "ops_ok lower s0 ops"
    and "(k, b) \<in> set (books (run lower ops s0))"
  shows "0 \<le> borrowedCount (run lower ops s0) b \<and> borrowedCount (run lower ops s0) b \<le> copies b"
proof -
  from seeded_invariant [OF assms(1)] assms(2)
  have inv: "wf_store (run lower ops s0) \<and> loans_ok (run lower ops s0)"
    by (simp add: run_invariant)
  with assms(3) have "id_book b = k"
    by (auto simp: wf_store_def list_all_iff)
  moreover from inv assms(3) have "get_borrowed_count (run lower ops s0) k \<le> copies b"
    by (auto simp: loans_ok_def list_all_iff)
  ultimately show ?thesis
    by (simp add: borrowedCount_def get_borrowed_count_def)
qed

text \<open>
  The claim as stated fails: \<^verbatim>\<open>add_book("Dune", "Herbert", -1)\<close> on the seeded store
  puts a book with -1 copies into the catalog, whose borrowed count, 0, is above its
  copies.
\<close>

theorem negative_copies_counterexample:
  "new_manager Absent True [] = Inr seeded_store
   \<and> (lit ''b4'', \<lparr>id_book = lit ''b4'', title = lit ''Dune'', author = lit ''Herbert'', copies = - 1\<rparr>)
       \<in> set (books (run lower_latin1 [AddBook (lit ''Dune'') (lit ''Herbert'') (- 1) (lit ''b4'')] seeded_store))
   \<and> borrowedCount (run lower_latin1 [AddBook (lit ''Dune'') (lit ''Herbert'') (- 1) (lit ''b4'')] seeded_store)
          \<lparr>id_book = lit ''b4'', title = lit ''Dune'', author = lit ''Herbert'', copies = - 1\<rparr> = 0
   \<and> \<not> borrowedCount (run lower_latin1 [AddBook (lit ''Dune'') (lit ''Herbert'') (- 1) (lit ''b4'')] seeded_store)
          \<lparr>id_book = lit ''b4'', title = lit ''Dune'', author = lit ''Herbert'', copies = - 1\<rparr>
        \<le> copies \<lparr>id_book = lit ''b4'', title = lit ''Dune'', author = lit ''Herbert'', copies = - 1\<rparr>"
  by (simp add: seeded_store_new snd_add_book seeded_store_fields initial_books_def borrowedCount_def)

text \<open>
  After the example week (Dune added with two copies, lent twice, returned once),
  one copy of Dune is borrowed.
\<close>

theorem borrowed_count_within_copies_witness:
  "new_manager Absent True [] = Inr seeded_store
   \<and> ops_ok lower_latin1 seeded_store busy_week
   \<and> (lit ''b4'', dune) \<in> set (books (run lower_latin1 busy_week seeded_store))
   \<and> borrowedCount (run lower_latin1 busy_week seeded_store) dune = 1
   \<and> 0 \<le> borrowedCount (run lower_latin1 busy_week seeded_store) dune
   \<and> borrowedCount (run lower_latin1 busy_week seeded_store) dune \<le> copies dune"
proof -
  have ok: "ops_ok lower_latin1 seeded_store busy_week"
    by (rule busy_week_fields)
  have inside: "(lit ''b4'', dune) \<in> set (books (run lower_latin1 busy_week seeded_store))"
    by (simp add: busy_week_fields)
  have one: "borrowedCount (run lower_latin1 busy_week seeded_store) dune = 1"
    by (simp add: borrowedCount_def busy_week_fields dune_def)
  from borrowed_count_within_copies [OF seeded_store_new ok inside] seeded_store_new ok inside one
  show ?thesis by blast
qed

subsection \<open>Saving and loading\<close>

lemma from_dict_to_dict: "from_dict (to_dict b) = Inr b"
  by (simp add: from_dict_def to_dict_def)

lemma loan_of_json_loan_to_json: "loan_of_json (loan_to_json r) = Inr r"
  by (simp add: loan_of_json_def loan_to_json_def)

lemma loans_of_json_saved: "loans_of_json (map loan_to_json rs) = Inr rs"
  by (induction rs) (simp_all add: loan_of_json_loan_to_json)

lemma load_books_saved:
  "distinct (dict_keys (acc @ d)) \<Longrightarrow> list_all (\<lambda>kb. id_book (snd kb) = fst kb) d \<Longrightarrow>
   load_books (map to_dict (dict_values d)) acc = Inr (acc @ d)"
proof (induction d arbitrary: acc)
  case Nil
  then show ?case by (simp add: dict_values_def)
next
  case (Cons p d)
  obtain k b where p: "p = (k, b)" by (cases p)
  from Cons.prems p have id: "id_book b = k" by simp
  from Cons.prems p have fresh: "k \<notin> set (dict_keys acc)"
    by (auto simp: dict_keys_def)
  then have set: "dict_set k b acc = acc @ [(k, b)]"
    by (rule dict_set_fresh)
  from Cons.prems have "distinct (dict_keys ((acc @ [p]) @ d))" by simp
  moreover from Cons.prems have "list_all (\<lambda>kb. id_book (snd kb) = fst kb) d" by simp
  ultimately have "load_books (map to_dict (dict_values d)) (acc @ [p]) = Inr ((acc @ [p]) @ d)"
    by (rule Cons.IH)
  with p id set show ?case
    by (simp add: dict_values_def from_dict_to_dict)
qed

lemma wf_store_load_books:
  "load_books js d = Inr d' \<Longrightarrow> distinct (dict_keys d) \<Longrightarrow>
   list_all (\<lambda>kb. id_book (snd kb) = fst kb) d \<Longrightarrow>
   distinct (dict_keys d') \<and> list_all (\<lambda>kb. id_book (snd kb) = fst kb) d'"
proof (induction js arbitrary: d)
  case Nil
  then show ?case by simp
next
  case (Cons j js)
  from Cons.prems(1) obtain b where b: "from_dict j = Inr b"
    and rest: "load_books js (dict_set (id_book b) b d) = Inr d'"
    by (cases "from_dict j") auto
  from Cons.prems(2) have dist: "distinct (dict_keys (dict_set (id_book b) b d))"
    by (rule distinct_dict_set)
  from Cons.prems(3) set_dict_set_subset [of "id_book b" b d]
  have ids: "list_all (\<lambda>kb. id_book (snd kb) = fst kb) (dict_set (id_book b) b d)"
    by (auto simp: list_all_iff)
  from rest dist ids show ?case by (rule Cons.IH)
qed

lemma and_then_Inr: "and_then m f = Inr y \<Longrightarrow> \<exists>x. m = Inr x \<and> f x = Inr y"
  by (cases m) auto

text \<open>
  Every manager that the constructor builds, from whatever file, and every state that
  the operations lead to from there, has a well-formed catalog.
\<close>

lemma wf_store_new_manager:
  assumes "new_manager f w out = Inr s0"
  shows "wf_store s0"
proof (cases f)
  case Absent
  with assms seeded_invariant show ?thesis by blast
next
  case Unreadable
  with assms show ?thesis
    by (auto simp: new_manager_def load_data_def wf_store_def)
next
  case (Stored data)
  with assms obtain bs js where "load_books js [] = Inr bs" and "books s0 = bs"
    by (auto simp: new_manager_def load_data_def dest!: and_then_Inr)
  with wf_store_load_books [of js "[]" bs] show ?thesis
    by (simp add: wf_store_def)
qed

lemma wf_store_reachable:
  "new_manager f w out = Inr s0 \<Longrightarrow> wf_store (run lower ops s0)"
  by (simp add: wf_store_new_manager wf_store_run)

text \<open>
  Claim C4. Let the catalog of a state be well formed (it is a dict, and every book is
  stored under its own id, which holds for every state the program builds) and let the
  write succeed. Then a new manager that loads the file written by \<^verbatim>\<open>save_data\<close> has
  the same catalog, entry by entry and in the same order, and the same list of loan
  records: ids, titles, authors, copies, user ids, book ids and due dates are the same.
\<close>

theorem save_then_load:
  assumes "wf_store s" and "writable s"
  shows "new_manager (data_file (save_data s)) w out
           = Inr \<lparr>books = books s, borrowed_records = borrowed_records s,
                  data_file = Stored (data_to_save s), writable = w,
                  console = out @ [Info_loaded]\<rparr>"
proof -
  from assms(2) have stored: "data_file (save_data s) = Stored (data_to_save s)"
    by (rule data_file_save_data)
  from assms(1) have "load_books (map to_dict (dict_values (books s))) [] = Inr ([] @ books s)"
    by (intro load_books_saved) (simp_all add: wf_store_def)
  then have lb: "load_books (map (to_dict \<circ> snd) (books s)) [] = Inr (books s)"
    by (simp add: dict_values_def)
  have vals: "dict_values (map (\<lambda>(k, b). (k, to_dict b)) (books s)) = map (to_dict \<circ> snd) (books s)"
    by (simp add: dict_values_def comp_def case_prod_beta)
  show ?thesis
    by (simp add: stored new_manager_def load_data_def data_to_save_def vals lb
        loans_of_json_saved print_def)
qed

text \<open>
  The store in which both copies of Dune are lent is saved and loaded: the four books
  and the two loan records come back.
\<close>

theorem save_then_load_witness:
  "wf_store dune_lent_twice
   \<and> writable dune_lent_twice
   \<and> new_manager (data_file (save_data dune_lent_twice)) True []
       = Inr \<lparr>books = map (\<lambda>b. (id_book b, b)) initial_books @ [(lit ''b4'', dune)],
              borrowed_records =
                [\<lparr>user_id = lit ''u1'', book_id = lit ''b4'', due_date = lit ''2024-03-04''\<rparr>,
                 \<lparr>user_id = lit ''u1'', book_id = lit ''b4'', due_date = lit ''2024-03-05''\<rparr>],
              data_file = Stored (data_to_save dune_lent_twice), writable = True,
              console = [Info_loaded]\<rparr>"
proof -
  have wf: "wf_store dune_lent_twice"
    by (simp add: wf_store_def dune_lent_twice_fields initial_books_def dune_def)
  have w: "writable dune_lent_twice"
    by (rule dune_lent_twice_fields)
  from save_then_load [OF wf w, of True "[]"] wf w show ?thesis
    by (simp add: dune_lent_twice_fields)
qed

end
